theory Spec2Isabelle
  imports Main "HOL-Library.Sublist"
begin

section \<open>FAHMunge: merging trajectory fragments and deriving subset stores\<close>

text \<open>
  A model of \<^verbatim>\<open>FAHMunge/fah.py\<close>: the natural sort key \<^verbatim>\<open>keynat\<close>, the three merge
  operations \<^verbatim>\<open>concatenate_core17\<close>, \<^verbatim>\<open>concatenate_core17_filenames\<close> and
  \<^verbatim>\<open>concatenate_ocore\<close>, and \<^verbatim>\<open>strip_water\<close>. A trajectory file is a value, an
  operation takes the file before the call and returns its outcome (returned or raised),
  the file after the call and the effects in the order they happened.

  The trajectory container, the archive reader, the topology and the file system belong
  to other libraries. What the module's own code reacts to is modelled: a path that does
  not exist, a file without coordinates node or without ledger array, an array that
  exists already, a unit that fails to load, an identifier that the ledger array cannot
  take as it is handed over, an atom index out of range. Opening a file, writing frames
  and appending to an array succeed otherwise.
\<close>

subsection \<open>The natural sort key\<close>

text \<open>
  The sort key \<^verbatim>\<open>keynat\<close> builds a list whose elements are integers and
  one-character strings.
\<close>

datatype pyval = PInt int | PStr string

text \<open>
  \<^verbatim>\<open>int(c)\<close> on one character: a decimal digit gives its value, any other
  character raises, which the loop catches.
\<close>

definition int_of_char :: "char \<Rightarrow> int option" where
  "int_of_char c =
     (let n = (of_char c :: nat) in if 48 \<le> n \<and> n \<le> 57 then Some (int n - 48) else None)"

text \<open>
  One turn of the loop of \<^verbatim>\<open>keynat\<close>. For a digit, \<^verbatim>\<open>r[-1] = r[-1] * 10 + c\<close> fails on an
  empty list (no last element) and on a last element that is a string; both failures
  are caught and the digit is appended.
\<close>

fun keynat_step :: "pyval list \<Rightarrow> char \<Rightarrow> pyval list" where
  "keynat_step r c =
     (case int_of_char c of
        None \<Rightarrow> r @ [PStr [c]]
      | Some d \<Rightarrow>
          (case r of
             [] \<Rightarrow> r @ [PInt d]
           | _ # _ \<Rightarrow>
               (case last r of
                  PInt n \<Rightarrow> butlast r @ [PInt (n * 10 + d)]
                | PStr s \<Rightarrow> r @ [PInt d])))"

declare keynat_step.simps [simp del]

definition keynat :: "string \<Rightarrow> pyval list" where
  "keynat string = foldl keynat_step [] string"

text \<open>
  The order \<^verbatim>\<open>sorted\<close> compares keys with, as the doctest of \<^verbatim>\<open>keynat\<close> has it
  (\<^verbatim>\<open>['1', '9', '10', 'Z', 'a']\<close>): strings by their bytes, integers by value, an integer
  before any string, lists by their first differing element and then by length. This is
  the order of Python 2; the doctest does not hold in Python 3, where comparing an
  integer with a string raises.
\<close>

fun str_lt :: "string \<Rightarrow> string \<Rightarrow> bool" where
  "str_lt [] [] = False"
| "str_lt [] (y # ys) = True"
| "str_lt (x # xs) [] = False"
| "str_lt (x # xs) (y # ys) =
     (if x = y then str_lt xs ys else (of_char x :: nat) < of_char y)"

fun pyval_lt :: "pyval \<Rightarrow> pyval \<Rightarrow> bool" where
  "pyval_lt (PInt a) (PInt b) = (a < b)"
| "pyval_lt (PInt a) (PStr t) = True"
| "pyval_lt (PStr s) (PInt b) = False"
| "pyval_lt (PStr s) (PStr t) = str_lt s t"

fun list_lt :: "pyval list \<Rightarrow> pyval list \<Rightarrow> bool" where
  "list_lt [] [] = False"
| "list_lt [] (y # ys) = True"
| "list_lt (x # xs) [] = False"
| "list_lt (x # xs) (y # ys) = (if x = y then list_lt xs ys else pyval_lt x y)"

text \<open>
  \<^verbatim>\<open>sorted(xs, key=key)\<close> compares keys with \<open><\<close> only and is stable: elements with
  equal keys keep their order.
\<close>

fun insort_by :: "('k \<Rightarrow> 'k \<Rightarrow> bool) \<Rightarrow> ('a \<Rightarrow> 'k) \<Rightarrow> 'a \<Rightarrow> 'a list \<Rightarrow> 'a list" where
  "insort_by lt key x [] = [x]"
| "insort_by lt key x (y # ys) =
     (if lt (key y) (key x) then y # insort_by lt key x ys else x # y # ys)"

definition sorted_by :: "('k \<Rightarrow> 'k \<Rightarrow> bool) \<Rightarrow> ('a \<Rightarrow> 'k) \<Rightarrow> 'a list \<Rightarrow> 'a list" where
  "sorted_by lt key xs = foldr (insort_by lt key) xs []"


text \<open>
  The decimal value of a run of digits, and the places where a run is maximal: no digit
  right before it and none right after.
\<close>

definition digit_val :: "char \<Rightarrow> int" where
  "digit_val c = (case int_of_char c of Some d \<Rightarrow> d | None \<Rightarrow> 0)"

fun run_value :: "string \<Rightarrow> int" where
  "run_value [] = 0"
| "run_value (c # cs) = digit_val c * 10 ^ length cs + run_value cs"

definition digit_run :: "string \<Rightarrow> bool" where
  "digit_run ds = (ds \<noteq> [] \<and> list_all (\<lambda>c. int_of_char c \<noteq> None) ds)"

definition no_digit_before :: "string \<Rightarrow> bool" where
  "no_digit_before p = (case rev p of [] \<Rightarrow> True | c # _ \<Rightarrow> int_of_char c = None)"

definition no_digit_after :: "string \<Rightarrow> bool" where
  "no_digit_after t = (case t of [] \<Rightarrow> True | c # _ \<Rightarrow> int_of_char c = None)"


subsection \<open>Paths and integer parsing\<close>

text \<open>
  \<^verbatim>\<open>os.path.join(a, b)\<close> on POSIX: an absolute second component replaces the first,
  otherwise the two are joined with exactly one separator.
\<close>

definition os_path_join :: "string \<Rightarrow> string \<Rightarrow> string" where
  "os_path_join a b =
     (if (case b of [] \<Rightarrow> False | c # _ \<Rightarrow> c = CHR ''/'') then b
      else if a = [] \<or> last a = CHR ''/'' then a @ b
      else a @ ''/'' @ b)"

subsection \<open>Exceptions, printed messages and the trace of effects\<close>

text \<open>
  Every \<^verbatim>\<open>print\<close> of the module is a constructor of \<open>msg\<close> carrying the values that
  are formatted into the text; the message of a raised \<^verbatim>\<open>ValueError\<close> is a \<open>msg\<close> too.
\<close>

datatype msg =
    SkippingNotFound string
  | AllAtomHasFrames string nat
  | MustHaveAtLeast int string
  | CantFindProcessed string
  | FoundCounts nat nat nat nat string string
  | MoreFrames nat nat
  | MoreFilenames nat nat
  | MustMatchBothOrNeither
  | SameNumberSkipping
  | AlreadyProcessed string
  | Processing string
  | Echo string
  | InvalidLiteral string

datatype exn =
    ValueError msg
  | NoSuchNodeError
  | AttributeError
  | IndexError
  | NameError
  | RuntimeError
  | OSError
  | IOError
  | UnicodeEncodeError

datatype outcome = Returned | Raised exn

text \<open>
  \<^verbatim>\<open>int(value)\<close> on a string, as the sort key of \<^verbatim>\<open>concatenate_ocore\<close>: surrounding
  ASCII whitespace is dropped, one sign is allowed, the rest must be one or more decimal
  digits; anything else raises \<^verbatim>\<open>ValueError\<close>.
\<close>

definition is_space :: "char \<Rightarrow> bool" where
  "is_space c = (let n = (of_char c :: nat) in n = 32 \<or> (9 \<le> n \<and> n \<le> 13))"

definition py_strip :: "string \<Rightarrow> string" where
  "py_strip s = rev (dropWhile is_space (rev (dropWhile is_space s)))"

definition digits_value :: "string \<Rightarrow> int option" where
  "digits_value ds =
     (if ds \<noteq> [] \<and> list_all (\<lambda>c. int_of_char c \<noteq> None) ds
      then Some (foldl (\<lambda>n c. n * 10 + digit_val c) 0 ds) else None)"

definition py_int :: "string \<Rightarrow> exn + int" where
  "py_int value =
     (let body = py_strip value;
          parsed =
            (case body of
               [] \<Rightarrow> None
             | c # cs \<Rightarrow>
                 (if c = CHR ''-'' then map_option uminus (digits_value cs)
                  else if c = CHR ''+'' then digits_value cs
                  else digits_value body))
      in case parsed of
           None \<Rightarrow> Inl (ValueError (InvalidLiteral value))
         | Some n \<Rightarrow> Inr n)"

subsection \<open>Frames and the trajectory file\<close>

text \<open>
  Numeric arrays are never computed with, only moved, so their content is a type
  parameter \<open>'a\<close>. A loaded trajectory is a list of \<open>md_frame\<close>; the coordinates of a
  frame are a list with one entry per atom.
\<close>

record 'a md_frame =
  xyz :: "'a list"
  unitcell_lengths :: "'a option"
  unitcell_angles :: "'a option"
  frame_time :: "'a"

text \<open>
  One frame as stored in the trajectory file: the nine fields that
  \<^verbatim>\<open>HDF5TrajectoryFile.read\<close> returns. A field that was never written reads as
  \<^verbatim>\<open>None\<close>.
\<close>

record 'a row =
  coordinates :: "'a list"
  time :: "'a option"
  cell_lengths :: "'a option"
  cell_angles :: "'a option"
  velocities :: "'a list option"
  kineticEnergy :: "'a option"
  potentialEnergy :: "'a option"
  temperature :: "'a option"
  alchemicalLambda :: "'a option"

text \<open>
  The trajectory file: the frames (\<open>None\<close> while the file has no coordinates node, in
  which case \<^verbatim>\<open>len\<close> raises \<^verbatim>\<open>NoSuchNodeError\<close>, as lines 116--119 of the source
  expect), the topology, and the named string arrays under the root group. The module
  creates every string array with \<^verbatim>\<open>StringAtom(1024)\<close>: an entry holds at most 1024
  bytes and a longer string is cut to its first 1024 bytes when appended.
\<close>

record ('a, 't) hdf5 =
  frames :: "'a row list option"
  topology :: "'t option"
  earrays :: "string \<rightharpoonup> string list"

datatype ('a, 't) event =
    Print msg
  | Open string string
  | CreateEArray string string
  | SetTopology string 't
  | Load string
  | Write string "'a row list"
  | Append string string "string list"

definition empty_hdf5 :: "('a, 't) hdf5" where
  "empty_hdf5 = \<lparr>frames = None, topology = None, earrays = Map.empty\<rparr>"

definition StringAtom :: "nat \<Rightarrow> string \<Rightarrow> string" where
  "StringAtom itemsize s = take itemsize s"

definition stored_frames :: "('a, 't) hdf5 \<Rightarrow> 'a row list" where
  "stored_frames h = (case frames h of None \<Rightarrow> [] | Some fs \<Rightarrow> fs)"

definition ledger :: "string \<Rightarrow> ('a, 't) hdf5 \<Rightarrow> string list" where
  "ledger name h = (case earrays h name of None \<Rightarrow> [] | Some es \<Rightarrow> es)"

definition h5_len :: "('a, 't) hdf5 \<Rightarrow> exn + nat" where
  "h5_len h = (case frames h of None \<Rightarrow> Inl NoSuchNodeError | Some fs \<Rightarrow> Inr (length fs))"

definition h5_write :: "'a row list \<Rightarrow> ('a, 't) hdf5 \<Rightarrow> ('a, 't) hdf5" where
  "h5_write rows h = h\<lparr>frames := Some (stored_frames h @ rows)\<rparr>"

definition h5_append :: "string \<Rightarrow> string list \<Rightarrow> ('a, 't) hdf5 \<Rightarrow> ('a, 't) hdf5" where
  "h5_append name entries h =
     h\<lparr>earrays := (earrays h)(name \<mapsto> ledger name h @ map (StringAtom 1024) entries)\<rparr>"

text \<open>
  Line 194 (and 251, 305) appends the identifier as it is, a \<^verbatim>\<open>str\<close>, although line 182
  (239, 295) converts it with \<^verbatim>\<open>six.b\<close> for the membership test. On Python 3
  \<^verbatim>\<open>six.b\<close> is the Latin-1 encoding, which takes every character of a \<open>string\<close> (a
  list of 8-bit characters), but the conversion of a \<^verbatim>\<open>str\<close> to the bytes of the array
  is an ASCII encoding: an identifier with a character outside ASCII raises
  \<^verbatim>\<open>UnicodeEncodeError\<close> and nothing is appended. \<open>h5_append\<close> is the append of entries
  that are bytes already (as \<^verbatim>\<open>strip_water\<close> copies them from another array) and the
  effect of an append that succeeds.
\<close>

definition is_ascii :: "string \<Rightarrow> bool" where
  "is_ascii s = list_all (\<lambda>c. (of_char c :: nat) < 128) s"

definition h5_append_str ::
  "string \<Rightarrow> string list \<Rightarrow> ('a, 't) hdf5 \<Rightarrow> exn + ('a, 't) hdf5" where
  "h5_append_str name entries h =
     (if list_all is_ascii entries then Inr (h5_append name entries h)
      else Inl UnicodeEncodeError)"

text \<open>
  Opening a file in mode \<^verbatim>\<open>'a'\<close> creates it when it does not exist.
\<close>

definition open_append :: "('a, 't) hdf5 option \<Rightarrow> ('a, 't) hdf5" where
  "open_append disk = (case disk of None \<Rightarrow> empty_hdf5 | Some h \<Rightarrow> h)"

text \<open>
  The \<^verbatim>\<open>try\<close> block that initialises a store on first touch: \<^verbatim>\<open>_create_earray\<close>
  raises \<^verbatim>\<open>NodeError\<close> when the array exists, and then the topology is not set
  either.
\<close>

definition init_store ::
  "string \<Rightarrow> string \<Rightarrow> 't \<Rightarrow> ('a, 't) hdf5 \<Rightarrow> ('a, 't) hdf5 \<times> ('a, 't) event list" where
  "init_store filename name top_topology h =
     (case earrays h name of
        Some _ \<Rightarrow> (h, [])
      | None \<Rightarrow>
          (h\<lparr>earrays := (earrays h)(name \<mapsto> []), topology := Some top_topology\<rparr>,
           [CreateEArray filename name, SetTopology filename top_topology]))"

subsection \<open>The merge loop\<close>

definition row_of_frame :: "'a md_frame \<Rightarrow> 'a row" where
  "row_of_frame frame =
     \<lparr>coordinates = xyz frame, time = Some (frame_time frame),
      cell_lengths = unitcell_lengths frame, cell_angles = unitcell_angles frame,
      velocities = None, kineticEnergy = None, potentialEnergy = None,
      temperature = None, alchemicalLambda = None\<rparr>"

definition write_frames :: "'a md_frame list \<Rightarrow> ('a, 't) hdf5 \<Rightarrow> ('a, 't) hdf5" where
  "write_frames trj h = foldl (\<lambda>h frame. h5_write [row_of_frame frame] h) h trj"

text \<open>
  The loop of lines 181--194, 238--251 and 294--305: the three copies differ in the name
  of the ledger array and in the loader only. It returns the outcome, the file and the
  effects in the order they happen. When the append of the identifier raises, the frames
  of the unit are in the file already.
\<close>

fun merge_units ::
  "string \<Rightarrow> string \<Rightarrow> (string \<Rightarrow> exn + 'a md_frame list) \<Rightarrow> string list \<Rightarrow>
   ('a, 't) hdf5 \<Rightarrow> outcome \<times> ('a, 't) hdf5 \<times> ('a, 't) event list" where
  "merge_units output_filename name load [] h = (Returned, h, [])"
| "merge_units output_filename name load (filename # rest) h =
     (if filename \<in> set (ledger name h) then
        (case merge_units output_filename name load rest h of
           (res, h', evs) \<Rightarrow> (res, h', Print (AlreadyProcessed filename) # evs))
      else
        (case load filename of
           Inl e \<Rightarrow> (Raised e, h, [Print (Processing filename), Load filename])
         | Inr trj \<Rightarrow>
             (case h5_append_str name [filename] (write_frames trj h) of
                Inl e \<Rightarrow>
                  (Raised e, write_frames trj h,
                   [Print (Processing filename), Load filename]
                   @ map (\<lambda>frame. Write output_filename [row_of_frame frame]) trj)
              | Inr h1 \<Rightarrow>
                  (case merge_units output_filename name load rest h1 of
                     (res, h', evs) \<Rightarrow>
                       (res, h',
                        [Print (Processing filename), Load filename]
                        @ map (\<lambda>frame. Write output_filename [row_of_frame frame]) trj
                        @ [Append output_filename name [filename]]
                        @ evs)))))"

subsection \<open>The three merge operations\<close>

text \<open>
  The collaborators are parameters: \<open>glob\<close> is \<^verbatim>\<open>glob.glob\<close>, \<open>listdir\<close> is
  \<^verbatim>\<open>os.listdir\<close>, \<open>load\<close> is the extraction and loading of one unit (which may
  raise), \<open>top_topology\<close> is \<^verbatim>\<open>top.topology\<close>, and \<open>disk\<close> is the output file before the call
  (\<open>None\<close> when it does not exist). The result holds the file after the call.
\<close>

definition concatenate_core17 ::
  "(string \<Rightarrow> string list) \<Rightarrow> (string \<Rightarrow> exn + 'a md_frame list) \<Rightarrow>
   string \<Rightarrow> 't \<Rightarrow> string \<Rightarrow> ('a, 't) hdf5 option \<Rightarrow>
   outcome \<times> ('a, 't) hdf5 option \<times> ('a, 't) event list" where
  "concatenate_core17 glob load path top_topology output_filename disk =
     (let glob_input = os_path_join path ''results-*.tar.bz2'';
          filenames = sorted_by list_lt keynat (glob glob_input)
      in if length filenames \<le> 0 then (Returned, disk, [])
         else
           (case init_store output_filename ''processed_filenames'' top_topology (open_append disk) of
              (trj_file, evs0) \<Rightarrow>
                (case merge_units output_filename ''processed_filenames'' load filenames trj_file of
                   (res, h', evs) \<Rightarrow>
                     (res, Some h', Open output_filename ''a'' # evs0 @ evs))))"

text \<open>
  The variant that loads the topology itself. Its \<^verbatim>\<open>except RuntimeError\<close> handler
  formats a message from \<^verbatim>\<open>run\<close> and \<^verbatim>\<open>clone\<close>, which are not defined anywhere in the
  module, so the handler raises \<^verbatim>\<open>NameError\<close>.
\<close>

definition concatenate_core17_filenames ::
  "(string \<Rightarrow> string list) \<Rightarrow> (string \<Rightarrow> exn + 'a md_frame list) \<Rightarrow>
   (string \<Rightarrow> exn + 't) \<Rightarrow> string \<Rightarrow> string \<Rightarrow> string \<Rightarrow> ('a, 't) hdf5 option \<Rightarrow>
   outcome \<times> ('a, 't) hdf5 option \<times> ('a, 't) event list" where
  "concatenate_core17_filenames glob load md_load_top path top_filename output_filename disk =
     (case md_load_top top_filename of
        Inl e \<Rightarrow> (Raised e, disk, [Print (Echo output_filename)])
      | Inr top_topology \<Rightarrow>
          (let glob_input = os_path_join path ''results-*.tar.bz2'';
               filenames = sorted_by list_lt keynat (glob glob_input)
           in if length filenames \<le> 0 then (Returned, disk, [Print (Echo output_filename)])
              else
                (case init_store output_filename ''processed_filenames'' top_topology (open_append disk) of
                   (trj_file, evs0) \<Rightarrow>
                     (case merge_units output_filename ''processed_filenames'' load filenames
                             trj_file of
                        (res, h', evs) \<Rightarrow>
                          ((case res of
                              Raised RuntimeError \<Rightarrow> Raised NameError
                            | _ \<Rightarrow> res),
                           Some h',
                           Print (Echo output_filename) # Open output_filename ''a'' # evs0 @ evs)))))"

text \<open>
  \<^verbatim>\<open>sorted(os.listdir(path), key=lambda value: int(value))\<close>: the key of every entry
  is computed first, in listing order, and the first entry that is not an integer
  raises.
\<close>

fun int_keys :: "string list \<Rightarrow> exn + (int \<times> string) list" where
  "int_keys [] = Inr []"
| "int_keys (value # rest) =
     (case py_int value of
        Inl e \<Rightarrow> Inl e
      | Inr k \<Rightarrow> (case int_keys rest of Inl e \<Rightarrow> Inl e | Inr ks \<Rightarrow> Inr ((k, value) # ks)))"

definition concatenate_ocore ::
  "(string \<Rightarrow> exn + string list) \<Rightarrow> (string \<Rightarrow> exn + 'a md_frame list) \<Rightarrow>
   string \<Rightarrow> 't \<Rightarrow> string \<Rightarrow> ('a, 't) hdf5 option \<Rightarrow>
   outcome \<times> ('a, 't) hdf5 option \<times> ('a, 't) event list" where
  "concatenate_ocore listdir md_load path top_topology output_filename disk =
     (case listdir path of
        Inl e \<Rightarrow> (Raised e, disk, [])
      | Inr entries \<Rightarrow>
          (case int_keys entries of
             Inl e \<Rightarrow> (Raised e, disk, [])
           | Inr keyed \<Rightarrow>
               (let sorted_folders = map snd (sorted_by (<) fst keyed);
                    sorted_folders = map (os_path_join path) sorted_folders
                in if length sorted_folders \<le> 0 then (Returned, disk, [])
                   else
                     (case init_store output_filename ''processed_folders'' top_topology
                             (open_append disk) of
                        (trj_file, evs0) \<Rightarrow>
                          (case merge_units output_filename ''processed_folders''
                                  (\<lambda>folder. md_load (os_path_join folder ''frames.xtc''))
                                  sorted_folders trj_file of
                             (res, h', evs) \<Rightarrow>
                               (res, Some h', Open output_filename ''a'' # evs0 @ evs))))))"

subsection \<open>Deriving the atom-subset store\<close>

text \<open>
  \<^verbatim>\<open>coordinates[:, protein_atom_indices]\<close>: an index \<open>i\<close> with \<open>-n \<le> i < n\<close> selects an
  atom (a negative one counts from the end), any other raises \<^verbatim>\<open>IndexError\<close>.
\<close>

definition py_index :: "nat \<Rightarrow> int \<Rightarrow> nat option" where
  "py_index n i =
     (let j = (if i < 0 then i + int n else i)
      in if 0 \<le> j \<and> j < int n then Some (nat j) else None)"

fun gather :: "'a list \<Rightarrow> int list \<Rightarrow> exn + 'a list" where
  "gather xs [] = Inr []"
| "gather xs (i # rest) =
     (case py_index (length xs) i of
        None \<Rightarrow> Inl IndexError
      | Some j \<Rightarrow> (case gather xs rest of Inl e \<Rightarrow> Inl e | Inr ys \<Rightarrow> Inr (xs ! j # ys)))"

fun gather_rows :: "'a row list \<Rightarrow> int list \<Rightarrow> exn + 'a list list" where
  "gather_rows [] indices = Inr []"
| "gather_rows (r # rs) indices =
     (case gather (coordinates r) indices of
        Inl e \<Rightarrow> Inl e
      | Inr c \<Rightarrow> (case gather_rows rs indices of Inl e \<Rightarrow> Inl e | Inr cs \<Rightarrow> Inr (c # cs)))"

text \<open>
  The frames handed to \<^verbatim>\<open>trj_protein.write\<close>: the gathered coordinates with the time
  and the cell of the frame read; the other five fields are not passed.
\<close>

definition protein_row :: "'a row \<Rightarrow> 'a list \<Rightarrow> 'a row" where
  "protein_row r c =
     \<lparr>coordinates = c, time = time r, cell_lengths = cell_lengths r,
      cell_angles = cell_angles r, velocities = None, kineticEnergy = None,
      potentialEnergy = None, temperature = None, alchemicalLambda = None\<rparr>"

text \<open>
  Lines 100--105: the name of the ledger array of the all-atom file, with its entries.
\<close>

definition find_key :: "('a, 't) hdf5 \<Rightarrow> (string \<times> string list) option" where
  "find_key trj_allatom =
     (case earrays trj_allatom ''processed_filenames'' of
        Some es \<Rightarrow> Some (''processed_filenames'', es)
      | None \<Rightarrow>
          (case earrays trj_allatom ''processed_directories'' of
             Some es \<Rightarrow> Some (''processed_directories'', es)
           | None \<Rightarrow> None))"

text \<open>
  The two files \<^verbatim>\<open>strip_water\<close> works on, which are different files: the all-atom
  file is opened read-only, the protein file in mode \<^verbatim>\<open>'a'\<close>.
\<close>

record ('a, 't) files =
  allatom_file :: "('a, 't) hdf5 option"
  protein_file :: "('a, 't) hdf5 option"

text \<open>
  Lines 107--113: the protein file is opened (and so created) and initialised on first
  touch. \<^verbatim>\<open>trj_allatom.topology\<close> is \<^verbatim>\<open>None\<close> for a file without topology, and the
  call of \<^verbatim>\<open>subset\<close> on it raises \<^verbatim>\<open>AttributeError\<close>, which the \<^verbatim>\<open>except\<close> clause
  does not catch. \<open>topology_subset\<close> is \<^verbatim>\<open>Topology.subset\<close>.
\<close>

definition init_protein ::
  "('t \<Rightarrow> int list \<Rightarrow> 't) \<Rightarrow> string \<Rightarrow> string \<Rightarrow> int list \<Rightarrow> ('a, 't) hdf5 \<Rightarrow>
   ('a, 't) hdf5 \<Rightarrow> (exn + unit) \<times> ('a, 't) hdf5 \<times> ('a, 't) event list" where
  "init_protein topology_subset protein_filename key protein_atom_indices trj_allatom trj_protein =
     (case earrays trj_protein key of
        Some _ \<Rightarrow> (Inr (), trj_protein, [])
      | None \<Rightarrow>
          (let created = trj_protein\<lparr>earrays := (earrays trj_protein)(key \<mapsto> [])\<rparr>
           in case topology trj_allatom of
                None \<Rightarrow> (Inl AttributeError, created, [CreateEArray protein_filename key])
              | Some t \<Rightarrow>
                  (Inr (), created\<lparr>topology := Some (topology_subset t protein_atom_indices)\<rparr>,
                   [CreateEArray protein_filename key,
                    SetTopology protein_filename (topology_subset t protein_atom_indices)])))"

text \<open>
  Lines 115--147, once both files are open and the protein file is initialised.
\<close>

definition derive ::
  "string \<Rightarrow> string \<Rightarrow> int list \<Rightarrow> string \<Rightarrow> 'a row list \<Rightarrow> string list \<Rightarrow>
   ('a, 't) hdf5 \<Rightarrow> outcome \<times> ('a, 't) hdf5 \<times> ('a, 't) event list" where
  "derive allatom_filename protein_filename protein_atom_indices key frames_allatom
      filenames_allatom trj_protein =
     (let n_frames_allatom = length frames_allatom;
          n_frames_protein = (case h5_len trj_protein of Inl e \<Rightarrow> 0 | Inr n \<Rightarrow> n);
          filenames_protein = ledger key trj_protein;
          n_files_allatom = length filenames_allatom;
          n_files_protein = length filenames_protein;
          found = Print (FoundCounts n_files_allatom n_files_protein n_frames_allatom
                    n_frames_protein allatom_filename protein_filename)
      in if n_frames_protein > n_frames_allatom then
           (Raised (ValueError (MoreFrames n_frames_protein n_frames_allatom)),
            trj_protein, [found])
         else if n_files_protein > n_files_allatom then
           (Raised (ValueError (MoreFilenames n_files_protein n_files_allatom)),
            trj_protein, [found])
         else if n_frames_protein = n_frames_allatom \<or> n_files_allatom = n_files_protein then
           (if \<not> (n_frames_protein = n_frames_allatom \<and> n_files_allatom = n_files_protein)
            then (Raised (ValueError MustMatchBothOrNeither), trj_protein, [found])
            else (Returned, trj_protein, [found, Print SameNumberSkipping]))
         else
           (let read = drop n_frames_protein frames_allatom
            in case gather_rows read protein_atom_indices of
                 Inl e \<Rightarrow> (Raised e, trj_protein, [found])
               | Inr coords \<Rightarrow>
                   (let rows = map2 protein_row read coords;
                        copied = drop n_files_protein filenames_allatom
                    in (Returned,
                        h5_append key copied (h5_write rows trj_protein),
                        [found, Write protein_filename rows,
                         Append protein_filename key copied]))))"

definition strip_water ::
  "('t \<Rightarrow> int list \<Rightarrow> 't) \<Rightarrow> string \<Rightarrow> string \<Rightarrow> int list \<Rightarrow> int \<Rightarrow> ('a, 't) files \<Rightarrow>
   outcome \<times> ('a, 't) files \<times> ('a, 't) event list" where
  "strip_water topology_subset allatom_filename protein_filename protein_atom_indices min_num_frames w =
     (case allatom_file w of
        None \<Rightarrow> (Returned, w, [Print (SkippingNotFound allatom_filename)])
      | Some trj_allatom \<Rightarrow>
          (case frames trj_allatom of
             None \<Rightarrow> (Raised NoSuchNodeError, w, [Open allatom_filename ''r''])
           | Some frames_allatom \<Rightarrow>
               (let evs1 = [Open allatom_filename ''r'',
                            Print (AllAtomHasFrames allatom_filename (length frames_allatom))]
                in if int (length frames_allatom) < min_num_frames then
                     (Returned, w,
                      evs1 @ [Print (MustHaveAtLeast min_num_frames allatom_filename)])
                   else
                     (case find_key trj_allatom of
                        None \<Rightarrow>
                          (Raised (ValueError (CantFindProcessed allatom_filename)), w, evs1)
                      | Some (key, filenames_allatom) \<Rightarrow>
                          (case init_protein topology_subset protein_filename key protein_atom_indices
                                  trj_allatom (open_append (protein_file w)) of
                             (Inl e, trj_protein, evs2) \<Rightarrow>
                               (Raised e, w\<lparr>protein_file := Some trj_protein\<rparr>,
                                evs1 @ Open protein_filename ''a'' # evs2)
                           | (Inr _, trj_protein, evs2) \<Rightarrow>
                               (case derive allatom_filename protein_filename
                                       protein_atom_indices key frames_allatom
                                       filenames_allatom trj_protein of
                                  (res, trj_protein', evs3) \<Rightarrow>
                                    (res, w\<lparr>protein_file := Some trj_protein'\<rparr>,
                                     evs1 @ Open protein_filename ''a'' # evs2 @ evs3)))))))"

subsection \<open>Reading a trace\<close>

text \<open>
  The effect of one event on the file it names, the file after a whole trace, the kinds
  of events (a ledger append, a write of frames, any event on a trajectory file), and the
  entries a trace appends to a ledger, in order.
\<close>

fun apply_event :: "('a, 't) hdf5 \<Rightarrow> ('a, 't) event \<Rightarrow> ('a, 't) hdf5" where
  "apply_event h (Write f rows) = h5_write rows h"
| "apply_event h (Append f name entries) = h5_append name entries h"
| "apply_event h (Print m) = h"
| "apply_event h (Open f mode) = h"
| "apply_event h (CreateEArray f name) = h\<lparr>earrays := (earrays h)(name \<mapsto> [])\<rparr>"
| "apply_event h (SetTopology f t) = h\<lparr>topology := Some t\<rparr>"
| "apply_event h (Load f) = h"

definition replay :: "('a, 't) hdf5 \<Rightarrow> ('a, 't) event list \<Rightarrow> ('a, 't) hdf5" where
  "replay h evs = foldl apply_event h evs"

fun is_append :: "('a, 't) event \<Rightarrow> bool" where
  "is_append (Append f name entries) = True"
| "is_append (Write f rows) = False"
| "is_append (Print m) = False"
| "is_append (Open f mode) = False"
| "is_append (CreateEArray f name) = False"
| "is_append (SetTopology f t) = False"
| "is_append (Load f) = False"

fun is_write :: "('a, 't) event \<Rightarrow> bool" where
  "is_write (Write f rows) = True"
| "is_write (Append f name entries) = False"
| "is_write (Print m) = False"
| "is_write (Open f mode) = False"
| "is_write (CreateEArray f name) = False"
| "is_write (SetTopology f t) = False"
| "is_write (Load f) = False"

fun touches_store :: "('a, 't) event \<Rightarrow> bool" where
  "touches_store (Print m) = False"
| "touches_store (Load f) = False"
| "touches_store (Open f mode) = True"
| "touches_store (CreateEArray f name) = True"
| "touches_store (SetTopology f t) = True"
| "touches_store (Write f rows) = True"
| "touches_store (Append f name entries) = True"

fun appended_entries :: "('a, 't) event list \<Rightarrow> string list" where
  "appended_entries [] = []"
| "appended_entries (Append f name entries # evs) = entries @ appended_entries evs"
| "appended_entries (Write f rows # evs) = appended_entries evs"
| "appended_entries (Print m # evs) = appended_entries evs"
| "appended_entries (Open f mode # evs) = appended_entries evs"
| "appended_entries (CreateEArray f name # evs) = appended_entries evs"
| "appended_entries (SetTopology f t # evs) = appended_entries evs"
| "appended_entries (Load f # evs) = appended_entries evs"

text \<open>
  A trace is paired when every ledger append in it names the file and the array of the
  run, appends one identifier, and comes right after the load of that unit and the
  writes of all its frames, with nothing in between.
\<close>

definition paired :: "string \<Rightarrow> string \<Rightarrow> (string \<Rightarrow> exn + 'a md_frame list) \<Rightarrow> ('a, 't) event list \<Rightarrow> bool" where
  "paired f name load evs =
     (\<forall>a f' n es b. evs = a @ Append f' n es # b \<longrightarrow>
        f' = f \<and> n = name \<and>
        (\<exists>u trj a'. es = [u] \<and> load u = Inr trj \<and>
           a = a' @ Print (Processing u) # Load u # map (\<lambda>frame. Write f [row_of_frame frame]) trj))"

definition disk_ledger :: "string \<Rightarrow> ('a, 't) hdf5 option \<Rightarrow> string list" where
  "disk_ledger name disk = (case disk of None \<Rightarrow> [] | Some h \<Rightarrow> ledger name h)"

definition disk_frames :: "('a, 't) hdf5 option \<Rightarrow> 'a row list" where
  "disk_frames disk = (case disk of None \<Rightarrow> [] | Some h \<Rightarrow> stored_frames h)"

definition succeeded :: "exn + 'b \<Rightarrow> bool" where
  "succeeded r = (case r of Inl e \<Rightarrow> False | Inr x \<Rightarrow> True)"

text \<open>The three parts of the result of an operation.\<close>

abbreviation outcome_of :: "outcome \<times> 'f \<times> 'e \<Rightarrow> outcome" where
  "outcome_of r \<equiv> fst r"

abbreviation file_of :: "outcome \<times> 'f \<times> 'e \<Rightarrow> 'f" where
  "file_of r \<equiv> fst (snd r)"

abbreviation trace_of :: "outcome \<times> 'f \<times> 'e \<Rightarrow> 'e" where
  "trace_of r \<equiv> snd (snd r)"

text \<open>The folders the loop of \<^verbatim>\<open>concatenate_ocore\<close> runs over, from the keyed listing.\<close>

definition ocore_folders :: "string \<Rightarrow> (int \<times> string) list \<Rightarrow> string list" where
  "ocore_folders path keyed = map (os_path_join path) (map snd (sorted_by (<) fst keyed))"

subsection \<open>Sample environments\<close>

text \<open>
  Concrete collaborators on which the operations are run: a clone directory with two
  archives (listed out of order), loaders that succeed or fail on the second archive, a
  stream directory with two folders, a clone directory five levels deep whose path
  is longer than 1024 bytes, and a clone directory whose name has a character outside
  ASCII (byte \<^verbatim>\<open>0xE9\<close>).
\<close>

definition frame_a :: "nat md_frame" where
  "frame_a = \<lparr>xyz = [11, 12, 13], unitcell_lengths = Some 4, unitcell_angles = Some 90,
              frame_time = 0\<rparr>"

definition frame_b :: "nat md_frame" where
  "frame_b = \<lparr>xyz = [21, 22, 23], unitcell_lengths = Some 4, unitcell_angles = Some 90,
              frame_time = 1\<rparr>"

definition glob_two :: "string \<Rightarrow> string list" where
  "glob_two pattern = [''/d/results-10.tar.bz2'', ''/d/results-9.tar.bz2'']"

definition glob_none :: "string \<Rightarrow> string list" where
  "glob_none pattern = []"

definition load_ok :: "string \<Rightarrow> exn + nat md_frame list" where
  "load_ok filename = Inr [frame_a, frame_b]"

definition load_damaged :: "string \<Rightarrow> exn + nat md_frame list" where
  "load_damaged filename =
     (if filename = ''/d/results-10.tar.bz2'' then Inl RuntimeError else Inr [frame_a])"

definition load_top_ok :: "string \<Rightarrow> exn + unit" where
  "load_top_ok top_filename = Inr ()"


definition listdir_none :: "string \<Rightarrow> exn + string list" where
  "listdir_none path = Inr []"





definition load_one :: "string \<Rightarrow> exn + nat md_frame list" where
  "load_one filename = Inr [frame_a]"

definition accent_clone_dir :: string where
  "accent_clone_dir = ''/d/cl'' @ [CHR 0xE9]"

definition accent_unit :: string where
  "accent_unit = os_path_join accent_clone_dir ''results-0.tar.bz2''"

definition glob_accent :: "string \<Rightarrow> string list" where
  "glob_accent pattern = [accent_unit]"

text \<open>
  An all-atom file with three frames of four atoms from two units, a protein file that
  is one frame and one unit behind it, and one that is level with it in frames only.
\<close>

definition full_row :: "nat \<Rightarrow> nat row" where
  "full_row k =
     \<lparr>coordinates = [k, k + 100, k + 200, k + 300], time = Some k, cell_lengths = Some 4,
      cell_angles = Some 90, velocities = Some [1, 1, 1, 1], kineticEnergy = Some 5,
      potentialEnergy = Some 6, temperature = Some 300, alchemicalLambda = Some 0\<rparr>"

definition allatom_sample :: "(nat, unit) hdf5" where
  "allatom_sample =
     \<lparr>frames = Some [full_row 0, full_row 1, full_row 2], topology = Some (),
      earrays = [''processed_filenames'' \<mapsto> [''/d/results-0.tar.bz2'', ''/d/results-1.tar.bz2'']]\<rparr>"

definition protein_behind :: "(nat, unit) hdf5" where
  "protein_behind =
     \<lparr>frames = Some [protein_row (full_row 0) [0, 200, 300]], topology = Some (),
      earrays = [''processed_filenames'' \<mapsto> [''/d/results-0.tar.bz2'']]\<rparr>"

definition protein_offstep :: "(nat, unit) hdf5" where
  "protein_offstep =
     \<lparr>frames = Some [protein_row (full_row 0) [0, 200, 300], protein_row (full_row 1) [1, 201, 301],
                     protein_row (full_row 2) [2, 202, 302]],
      topology = Some (),
      earrays = [''processed_filenames'' \<mapsto> [''/d/results-0.tar.bz2'']]\<rparr>"

definition keep_topology :: "unit \<Rightarrow> int list \<Rightarrow> unit" where
  "keep_topology t indices = ()"

text \<open>
  A loader that fails on every archive, and the file a merge leaves when the load of the
  first unit fails: created, with an empty ledger and the topology, without frames.
\<close>

definition load_none :: "string \<Rightarrow> exn + nat md_frame list" where
  "load_none filename = Inl IOError"

definition allatom_frameless :: "(nat, unit) hdf5" where
  "allatom_frameless =
     \<lparr>frames = None, topology = Some (), earrays = [''processed_filenames'' \<mapsto> []]\<rparr>"

section \<open>Properties\<close>

subsection \<open>The sort key\<close>

lemma keynat_step_nondigit:
  "int_of_char c = None \<Longrightarrow> keynat_step r c = r @ [PStr [c]]"
  by (simp add: keynat_step.simps)

lemma keynat_step_digit_int:
  "int_of_char c = Some d \<Longrightarrow> keynat_step (r @ [PInt n]) c = r @ [PInt (n * 10 + d)]"
  by (cases r) (simp_all add: keynat_step.simps)

lemma keynat_step_digit_str:
  "int_of_char c = Some d \<Longrightarrow> keynat_step (r @ [PStr s]) c = r @ [PStr s, PInt d]"
  by (cases r) (simp_all add: keynat_step.simps)

lemma keynat_step_digit_nil:
  "int_of_char c = Some d \<Longrightarrow> keynat_step [] c = [PInt d]"
  by (simp add: keynat_step.simps)

lemma keynat_snoc: "keynat (s @ [c]) = keynat_step (keynat s) c"
  by (simp add: keynat_def)

lemma foldl_keynat_after_str:
  "foldl keynat_step (r @ [PStr s]) t = r @ [PStr s] @ keynat t"
proof (induction t rule: rev_induct)
  case Nil
  show ?case by (simp add: keynat_def)
next
  case (snoc c t)
  show ?case
  proof (cases "int_of_char c")
    case None
    then show ?thesis
      using snoc by (simp add: keynat_snoc add: keynat_step_nondigit)
  next
    case (Some d)
    show ?thesis
    proof (cases "keynat t" rule: rev_cases)
      case Nil
      then show ?thesis
        using snoc Some keynat_step_digit_str [OF Some, of r s]
        by (simp add: keynat_snoc add: keynat_step_digit_nil)
    next
      case (snoc k x)
      note kt = this
      show ?thesis
      proof (cases x)
        case (PInt n)
        have "keynat_step ((r @ PStr s # k) @ [PInt n]) c = (r @ PStr s # k) @ [PInt (n * 10 + d)]"
          by (rule keynat_step_digit_int [OF Some])
        moreover have "keynat_step (k @ [PInt n]) c = k @ [PInt (n * 10 + d)]"
          by (rule keynat_step_digit_int [OF Some])
        ultimately show ?thesis
          using snoc.IH kt PInt by (simp add: keynat_snoc)
      next
        case (PStr u)
        have "keynat_step ((r @ PStr s # k) @ [PStr u]) c = (r @ PStr s # k) @ [PStr u, PInt d]"
          by (rule keynat_step_digit_str [OF Some])
        moreover have "keynat_step (k @ [PStr u]) c = k @ [PStr u, PInt d]"
          by (rule keynat_step_digit_str [OF Some])
        ultimately show ?thesis
          using snoc.IH kt PStr by (simp add: keynat_snoc)
      qed
    qed
  qed
qed

lemma foldl_keynat_digits:
  "list_all (\<lambda>c. int_of_char c \<noteq> None) ds \<Longrightarrow>
   foldl keynat_step (r @ [PInt a]) ds = r @ [PInt (a * 10 ^ length ds + run_value ds)]"
proof (induction ds arbitrary: a)
  case Nil
  show ?case by simp
next
  case (Cons c ds)
  then obtain d where d: "int_of_char c = Some d" by auto
  have "foldl keynat_step (r @ [PInt a]) (c # ds) = foldl keynat_step (r @ [PInt (a * 10 + d)]) ds"
    using keynat_step_digit_int [OF d, of r a] by simp
  also have "\<dots> = r @ [PInt ((a * 10 + d) * 10 ^ length ds + run_value ds)]"
    using Cons by simp
  finally show ?case using d by (simp add: digit_val_def algebra_simps)
qed

lemma keynat_digit_run: "digit_run ds \<Longrightarrow> keynat ds = [PInt (run_value ds)]"
proof -
  assume a: "digit_run ds"
  then obtain c cs where ds: "ds = c # cs" by (cases ds) (auto simp: digit_run_def)
  with a obtain d where d: "int_of_char c = Some d" and cs: "list_all (\<lambda>c. int_of_char c \<noteq> None) cs"
    by (auto simp: digit_run_def)
  have "keynat ds = foldl keynat_step ([] @ [PInt d]) cs"
    using d ds by (simp add: keynat_def keynat_step_digit_nil)
  also have "\<dots> = [PInt (d * 10 ^ length cs + run_value cs)]"
    using foldl_keynat_digits [OF cs, of "[]" d] by simp
  finally show ?thesis using d ds by (simp add: digit_val_def)
qed

lemma foldl_keynat_no_digit_after:
  "no_digit_after t \<Longrightarrow> foldl keynat_step r t = r @ keynat t"
proof (cases t)
  case Nil
  then show ?thesis by (simp add: keynat_def)
next
  case (Cons c t')
  assume "no_digit_after t"
  with Cons have c: "int_of_char c = None" by (simp add: no_digit_after_def)
  have "foldl keynat_step r t = foldl keynat_step (r @ [PStr [c]]) t'"
    using Cons c by (simp add: keynat_step_nondigit)
  moreover have "keynat t = foldl keynat_step ([] @ [PStr [c]]) t'"
    using Cons c by (simp add: keynat_def keynat_step_nondigit)
  ultimately show ?thesis
    using foldl_keynat_after_str [of r "[c]" t'] foldl_keynat_after_str [of "[]" "[c]" t']
    by simp
qed

lemma keynat_no_digit_before:
  "no_digit_before p \<Longrightarrow> foldl keynat_step (keynat p) s = keynat p @ keynat s"
proof (cases p rule: rev_cases)
  case Nil
  then show ?thesis by (simp add: keynat_def)
next
  case (snoc q x)
  assume "no_digit_before p"
  with snoc have x: "int_of_char x = None" by (simp add: no_digit_before_def)
  have "keynat p = keynat q @ [PStr [x]]"
    using snoc x by (simp add: keynat_snoc keynat_step_nondigit)
  then show ?thesis
    using foldl_keynat_after_str [of "keynat q" "[x]" s] by simp
qed

lemma keynat_append: "keynat (p @ s) = foldl keynat_step (keynat p) s"
  by (simp add: keynat_def)

lemma keynat_around_run:
  assumes "no_digit_before p" "digit_run d" "no_digit_after t"
  shows "keynat (p @ d @ t) = keynat p @ PInt (run_value d) # keynat t"
proof -
  have "keynat (p @ d @ t) = foldl keynat_step (foldl keynat_step (keynat p) d) t"
    by (simp add: keynat_def)
  also have "\<dots> = foldl keynat_step (keynat p @ keynat d) t"
    using keynat_no_digit_before [OF assms(1)] by simp
  also have "\<dots> = (keynat p @ keynat d) @ keynat t"
    by (rule foldl_keynat_no_digit_after [OF assms(3)])
  finally show ?thesis
    using keynat_digit_run [OF assms(2)] by simp
qed

lemma keynat_around_char:
  assumes "int_of_char c = None"
  shows "keynat (p @ c # t) = keynat p @ PStr [c] # keynat t"
proof -
  have "keynat (p @ c # t) = foldl keynat_step (keynat p @ [PStr [c]]) t"
    using assms by (simp add: keynat_def keynat_step_nondigit)
  then show ?thesis
    using foldl_keynat_after_str [of "keynat p" "[c]" t] by simp
qed

lemma list_lt_common_prefix:
  "x \<noteq> y \<Longrightarrow> list_lt (k @ x # a) (k @ y # b) = pyval_lt x y"
  by (induction k) simp_all

text \<open>
  C5. The key of \<^verbatim>\<open>keynat\<close> orders identifiers naturally. Two identifiers that agree up
  to a maximal run of digits are ordered by the integer values of the two runs; two
  identifiers that agree up to a character that is not a digit are ordered by that
  character. Sorting \<^verbatim>\<open>results-1, results-9, results-10, results-2\<close> by the key gives
  \<^verbatim>\<open>results-1, results-2, results-9, results-10\<close>.
\<close>

theorem keynat_natural_order:
  "(no_digit_before p \<and> digit_run d1 \<and> digit_run d2 \<and> no_digit_after t1 \<and> no_digit_after t2
      \<and> run_value d1 < run_value d2
    \<longrightarrow> list_lt (keynat (p @ d1 @ t1)) (keynat (p @ d2 @ t2))
        \<and> \<not> list_lt (keynat (p @ d2 @ t2)) (keynat (p @ d1 @ t1)))
   \<and> (int_of_char c1 = None \<and> int_of_char c2 = None \<and> (of_char c1 :: nat) < of_char c2
    \<longrightarrow> list_lt (keynat (q @ c1 # u1)) (keynat (q @ c2 # u2))
        \<and> \<not> list_lt (keynat (q @ c2 # u2)) (keynat (q @ c1 # u1)))
   \<and> sorted_by list_lt keynat [''results-1'', ''results-9'', ''results-10'', ''results-2'']
       = [''results-1'', ''results-2'', ''results-9'', ''results-10'']"
proof (intro conjI impI)
  assume a: "no_digit_before p \<and> digit_run d1 \<and> digit_run d2 \<and> no_digit_after t1
      \<and> no_digit_after t2 \<and> run_value d1 < run_value d2"
  then have k1: "keynat (p @ d1 @ t1) = keynat p @ PInt (run_value d1) # keynat t1"
    and k2: "keynat (p @ d2 @ t2) = keynat p @ PInt (run_value d2) # keynat t2"
    by (simp_all add: keynat_around_run)
  from a have ne: "PInt (run_value d1) \<noteq> PInt (run_value d2)" by simp
  show "list_lt (keynat (p @ d1 @ t1)) (keynat (p @ d2 @ t2))"
    unfolding k1 k2 using a by (simp add: list_lt_common_prefix [OF ne])
  show "\<not> list_lt (keynat (p @ d2 @ t2)) (keynat (p @ d1 @ t1))"
    unfolding k1 k2 using a by (simp add: list_lt_common_prefix [OF ne [symmetric]])
next
  assume a: "int_of_char c1 = None \<and> int_of_char c2 = None \<and> (of_char c1 :: nat) < of_char c2"
  then have k1: "keynat (q @ c1 # u1) = keynat q @ PStr [c1] # keynat u1"
    and k2: "keynat (q @ c2 # u2) = keynat q @ PStr [c2] # keynat u2"
    by (simp_all add: keynat_around_char)
  from a have ne: "PStr [c1] \<noteq> PStr [c2]" by auto
  show "list_lt (keynat (q @ c1 # u1)) (keynat (q @ c2 # u2))"
    unfolding k1 k2 using a ne by (simp add: list_lt_common_prefix [OF ne])
  show "\<not> list_lt (keynat (q @ c2 # u2)) (keynat (q @ c1 # u1))"
    unfolding k1 k2 using a ne by (simp add: list_lt_common_prefix [OF ne [symmetric]])
next
  show "sorted_by list_lt keynat [''results-1'', ''results-9'', ''results-10'', ''results-2'']
       = [''results-1'', ''results-2'', ''results-9'', ''results-10'']"
    by (simp add: sorted_by_def keynat_def keynat_step.simps int_of_char_def)
qed

theorem keynat_natural_order_witness:
  "list_lt (keynat ''/data/results-9.tar.bz2'') (keynat ''/data/results-10.tar.bz2'')
   \<and> \<not> list_lt (keynat ''/data/results-10.tar.bz2'') (keynat ''/data/results-9.tar.bz2'')
   \<and> list_lt (keynat ''run7a'') (keynat ''run7b'')
   \<and> \<not> list_lt (keynat ''run7b'') (keynat ''run7a'')"
proof -
  have h1: "no_digit_before ''/data/results-'' \<and> digit_run ''9'' \<and> digit_run ''10''
      \<and> no_digit_after ''.tar.bz2'' \<and> no_digit_after ''.tar.bz2''
      \<and> run_value ''9'' < run_value ''10''"
    by (simp add: no_digit_before_def digit_run_def no_digit_after_def int_of_char_def
        digit_val_def)
  have h2: "int_of_char CHR ''a'' = None \<and> int_of_char CHR ''b'' = None
      \<and> (of_char CHR ''a'' :: nat) < of_char CHR ''b''"
    by (simp add: int_of_char_def)
  show ?thesis
    using h1 h2
      keynat_natural_order [of "''/data/results-''" "''9''" "''10''" "''.tar.bz2''" "''.tar.bz2''"
        "CHR ''a''" "CHR ''b''" "''run7''" "[]" "[]"]
    by simp
qed

subsection \<open>The merge loop\<close>

lemma set_insort_by: "set (insort_by lt key x ys) = insert x (set ys)"
  by (induction ys) auto

lemma set_sorted_by: "set (sorted_by lt key xs) = set xs"
  by (induction xs) (simp_all add: sorted_by_def set_insort_by)



lemma sorted_by_Nil_iff: "sorted_by lt key xs = [] \<longleftrightarrow> xs = []"
  using set_sorted_by [of lt key xs] by (metis set_empty)

lemma ledger_h5_append:
  "ledger name (h5_append name entries h) = ledger name h @ map (StringAtom 1024) entries"
  by (simp add: ledger_def h5_append_def)

lemma ledger_h5_write: "ledger name (h5_write rows h) = ledger name h"
  by (simp add: ledger_def h5_write_def)

lemma ledger_write_frames: "ledger name (write_frames trj h) = ledger name h"
proof -
  have "ledger name (foldl (\<lambda>h frame. h5_write [row_of_frame frame] h) h trj) = ledger name h"
    by (induction trj arbitrary: h) (simp_all add: ledger_h5_write)
  then show ?thesis by (simp add: write_frames_def)
qed

lemma ledger_merged_unit:
  "ledger name (h5_append name [u] (write_frames trj h)) = ledger name h @ [StringAtom 1024 u]"
  by (simp add: ledger_h5_append ledger_write_frames)


lemma h5_append_str_one:
  "h5_append_str name [u] h
   = (if is_ascii u then Inr (h5_append name [u] h) else Inl UnicodeEncodeError)"
  by (simp add: h5_append_str_def)

text \<open>The four ways one turn of the loop can go.\<close>

lemma merge_units_step:
  assumes "merge_units f name load (u # us) h = (res, h', evs)"
  obtains (skip) evs1 where "u \<in> set (ledger name h)"
      and "merge_units f name load us h = (res, h', evs1)"
      and "evs = Print (AlreadyProcessed u) # evs1"
    | (load_fail) e where "u \<notin> set (ledger name h)" and "load u = Inl e"
      and "res = Raised e" and "h' = h" and "evs = [Print (Processing u), Load u]"
    | (append_fail) trj where "u \<notin> set (ledger name h)" and "load u = Inr trj"
      and "\<not> is_ascii u" and "res = Raised UnicodeEncodeError" and "h' = write_frames trj h"
      and "evs = [Print (Processing u), Load u]
                 @ map (\<lambda>frame. Write f [row_of_frame frame]) trj"
    | (merged) trj evs1 where "u \<notin> set (ledger name h)" and "load u = Inr trj"
      and "is_ascii u"
      and "merge_units f name load us (h5_append name [u] (write_frames trj h)) = (res, h', evs1)"
      and "evs = [Print (Processing u), Load u]
                 @ map (\<lambda>frame. Write f [row_of_frame frame]) trj
                 @ [Append f name [u]] @ evs1"
proof (cases "u \<in> set (ledger name h)")
  case True
  obtain r1 h1 e1 where m: "merge_units f name load us h = (r1, h1, e1)"
    by (metis prod_cases3)
  with True assms have "r1 = res" "h1 = h'" "evs = Print (AlreadyProcessed u) # e1"
    by simp_all
  with True m show ?thesis by (intro skip [of e1]) simp_all
next
  case False
  note nl = this
  show ?thesis
  proof (cases "load u")
    case (Inl e)
    with nl assms show ?thesis by (intro load_fail [of e]) simp_all
  next
    case (Inr trj)
    note ld = this
    show ?thesis
    proof (cases "is_ascii u")
      case False
      with nl ld assms show ?thesis
        by (intro append_fail [of trj]) (simp_all add: h5_append_str_one)
    next
      case True
      obtain r1 h1 e1 where
        m: "merge_units f name load us (h5_append name [u] (write_frames trj h)) = (r1, h1, e1)"
        by (metis prod_cases3)
      with True nl ld assms have "r1 = res" "h1 = h'"
        "evs = [Print (Processing u), Load u]
                 @ map (\<lambda>frame. Write f [row_of_frame frame]) trj
                 @ [Append f name [u]] @ e1"
        by (simp_all add: h5_append_str_one)
      with True nl ld m show ?thesis by (intro merged [of trj e1]) simp_all
    qed
  qed
qed


lemma merge_units_merged:
  "u \<notin> set (ledger name h) \<Longrightarrow> load u = Inr trj \<Longrightarrow> is_ascii u \<Longrightarrow>
   merge_units f name load us (h5_append name [u] (write_frames trj h)) = (res, h', evs) \<Longrightarrow>
   merge_units f name load (u # us) h
   = (res, h',
      [Print (Processing u), Load u] @ map (\<lambda>frame. Write f [row_of_frame frame]) trj
      @ [Append f name [u]] @ evs)"
  by (simp add: h5_append_str_one)


lemma merge_units_ledger_grows:
  "merge_units f name load us h = (res, h', evs) \<Longrightarrow> \<exists>xs. ledger name h' = ledger name h @ xs"
proof (induction us arbitrary: h res h' evs)
  case Nil
  then show ?case by simp
next
  case (Cons u us)
  from Cons.prems show ?case
  proof (cases rule: merge_units_step)
    case (skip evs1)
    from Cons.IH [OF skip(2)] show ?thesis .
  next
    case (load_fail e)
    then show ?thesis by simp
  next
    case (append_fail trj)
    then show ?thesis by (simp add: ledger_write_frames)
  next
    case (merged trj evs1)
    from Cons.IH [OF merged(4)] show ?thesis
      by (auto simp: ledger_merged_unit)
  qed
qed

lemma merge_units_ledger_subset:
  "merge_units f name load us h = (res, h', evs) \<Longrightarrow> set (ledger name h) \<subseteq> set (ledger name h')"
  using merge_units_ledger_grows [of f name load us h res h' evs] by auto



lemma replay_append: "replay h (xs @ ys) = replay (replay h xs) ys"
  by (simp add: replay_def)

lemma replay_Cons: "replay h (x # xs) = replay (apply_event h x) xs"
  by (simp add: replay_def)

lemma replay_Nil: "replay h [] = h"
  by (simp add: replay_def)

lemma replay_writes:
  "replay h (map (\<lambda>frame. Write f [row_of_frame frame]) trj) = write_frames trj h"
  by (simp add: replay_def write_frames_def foldl_map)

lemma merge_units_replay:
  "merge_units f name load us h = (res, h', evs) \<Longrightarrow> h' = replay h evs"
proof (induction us arbitrary: h res h' evs)
  case Nil
  then show ?case by (simp add: replay_def)
next
  case (Cons u us)
  from Cons.prems show ?case
  proof (cases rule: merge_units_step)
    case (skip evs1)
    from Cons.IH [OF skip(2)] skip(3) show ?thesis by (simp add: replay_Cons)
  next
    case (load_fail e)
    then show ?thesis by (simp add: replay_Cons replay_Nil)
  next
    case (append_fail trj)
    then show ?thesis by (simp add: replay_Cons replay_writes)
  next
    case (merged trj evs1)
    let ?h1 = "h5_append name [u] (write_frames trj h)"
    let ?seg = "[Print (Processing u), Load u] @ map (\<lambda>frame. Write f [row_of_frame frame]) trj
                @ [Append f name [u]]"
    have "replay h ?seg = ?h1"
      by (simp add: replay_Cons replay_append replay_writes replay_Nil)
    moreover have "evs = ?seg @ evs1" using merged(5) by simp
    ultimately show ?thesis
      using Cons.IH [OF merged(4)] by (simp only: replay_append)
  qed
qed

lemma split_after_plain:
  "\<forall>x\<in>set xs. \<not> is_append x \<Longrightarrow> is_append e \<Longrightarrow> xs @ e0 # evs = a @ e # b \<Longrightarrow>
   (a = xs \<and> e = e0 \<and> b = evs) \<or> (\<exists>a2. a = xs @ e0 # a2 \<and> evs = a2 @ e # b)"
proof (induction xs arbitrary: a)
  case Nil
  then show ?case by (cases a) auto
next
  case (Cons x xs)
  from Cons.prems have nx: "\<not> is_append x" by simp
  show ?case
  proof (cases a)
    case Nil
    with Cons.prems nx show ?thesis by auto
  next
    case (Cons y a1)
    with Cons.prems have "xs @ e0 # evs = a1 @ e # b" and "y = x" by simp_all
    with Cons.IH [of a1] Cons.prems Cons show ?thesis by auto
  qed
qed

lemma split_after_print:
  "\<not> is_append x \<Longrightarrow> is_append e \<Longrightarrow> x # evs = a @ e # b \<Longrightarrow>
   \<exists>a2. a = x # a2 \<and> evs = a2 @ e # b"
  by (cases a) auto

lemma paired_Nil: "paired f name load []"
  by (simp add: paired_def)

lemma paired_plain: "\<not> is_append x \<Longrightarrow> paired f name load evs \<Longrightarrow> paired f name load (x # evs)"
  unfolding paired_def
proof (intro allI impI)
  fix a f' n es b
  assume nx: "\<not> is_append x"
    and p: "\<forall>a f' n es b. evs = a @ Append f' n es # b \<longrightarrow>
        f' = f \<and> n = name \<and>
        (\<exists>u trj a'. es = [u] \<and> load u = Inr trj \<and>
           a = a' @ Print (Processing u) # Load u # map (\<lambda>frame. Write f [row_of_frame frame]) trj)"
    and e: "x # evs = a @ Append f' n es # b"
  have "\<exists>a2. a = x # a2 \<and> evs = a2 @ Append f' n es # b"
    using split_after_print [OF nx _ e] by simp
  then obtain a2 where a2: "a = x # a2" "evs = a2 @ Append f' n es # b"
    by auto
  from p a2(2) have "f' = f \<and> n = name \<and>
        (\<exists>u trj a'. es = [u] \<and> load u = Inr trj \<and>
           a2 = a' @ Print (Processing u) # Load u # map (\<lambda>frame. Write f [row_of_frame frame]) trj)"
    by blast
  then obtain u trj a' where "f' = f" "n = name" "es = [u]" "load u = Inr trj"
    "a2 = a' @ Print (Processing u) # Load u # map (\<lambda>frame. Write f [row_of_frame frame]) trj"
    by blast
  with a2(1) show "f' = f \<and> n = name \<and>
        (\<exists>u trj a'. es = [u] \<and> load u = Inr trj \<and>
           a = a' @ Print (Processing u) # Load u # map (\<lambda>frame. Write f [row_of_frame frame]) trj)"
    by (intro conjI exI [of _ u] exI [of _ trj] exI [of _ "x # a'"]) simp_all
qed

lemma paired_segment:
  assumes l: "load u = Inr trj" and p: "paired f name load evs"
  shows "paired f name load
           ([Print (Processing u), Load u] @ map (\<lambda>frame. Write f [row_of_frame frame]) trj
            @ [Append f name [u]] @ evs)"
  unfolding paired_def
proof (intro allI impI)
  fix a f' n es b
  let ?xs = "[Print (Processing u), Load u] @ map (\<lambda>frame. Write f [row_of_frame frame]) trj"
  assume e: "[Print (Processing u), Load u] @ map (\<lambda>frame. Write f [row_of_frame frame]) trj
            @ [Append f name [u]] @ evs = a @ Append f' n es # b"
  have plain: "\<forall>x\<in>set ?xs. \<not> is_append x" by auto
  from e have e': "?xs @ Append f name [u] # evs = a @ Append f' n es # b" by simp
  have "(a = ?xs \<and> Append f' n es = Append f name [u] \<and> b = evs)
        \<or> (\<exists>a2. a = ?xs @ Append f name [u] # a2 \<and> evs = a2 @ Append f' n es # b)"
    using split_after_plain [OF plain _ e'] by simp
  then show "f' = f \<and> n = name \<and>
        (\<exists>u trj a'. es = [u] \<and> load u = Inr trj \<and>
           a = a' @ Print (Processing u) # Load u # map (\<lambda>frame. Write f [row_of_frame frame]) trj)"
  proof (elim disjE exE conjE)
    assume own: "a = ?xs" "Append f' n es = Append f name [u]"
    with l show ?thesis
      by (intro conjI exI [of _ u] exI [of _ trj] exI [of _ "[]"]) simp_all
  next
    fix a2
    assume later: "a = ?xs @ Append f name [u] # a2" "evs = a2 @ Append f' n es # b"
    from p later(2) obtain v trjv a' where "f' = f" "n = name" "es = [v]" "load v = Inr trjv"
      "a2 = a' @ Print (Processing v) # Load v # map (\<lambda>frame. Write f [row_of_frame frame]) trjv"
      unfolding paired_def by blast
    with later(1) show ?thesis
      by (intro conjI exI [of _ v] exI [of _ trjv] exI [of _ "?xs @ Append f name [u] # a'"]) simp_all
  qed
qed

lemma paired_prefix:
  "\<forall>x\<in>set pre. \<not> is_append x \<Longrightarrow> paired f name load evs \<Longrightarrow> paired f name load (pre @ evs)"
  by (induction pre) (simp_all add: paired_plain)

lemma appended_entries_plain:
  "\<forall>x\<in>set pre. \<not> is_append x \<Longrightarrow> appended_entries pre = []"
  by (induction pre rule: appended_entries.induct) simp_all

lemma merge_units_paired:
  "merge_units f name load us h = (res, h', evs) \<Longrightarrow> paired f name load evs"
proof (induction us arbitrary: h res h' evs)
  case Nil
  then show ?case by (simp add: paired_Nil)
next
  case (Cons u us)
  from Cons.prems show ?case
  proof (cases rule: merge_units_step)
    case (skip evs1)
    from Cons.IH [OF skip(2)] skip(3) show ?thesis by (simp add: paired_plain)
  next
    case (load_fail e)
    then show ?thesis by (simp add: paired_plain paired_Nil)
  next
    case (append_fail trj)
    have "paired f name load
            (([Print (Processing u), Load u]
              @ map (\<lambda>frame. Write f [row_of_frame frame]) trj) @ [])"
      by (rule paired_prefix [OF _ paired_Nil]) auto
    with append_fail(6) show ?thesis by simp
  next
    case (merged trj evs1)
    from paired_segment [OF merged(2) Cons.IH [OF merged(4)]] merged(5) show ?thesis by simp
  qed
qed

lemma appended_entries_append:
  "appended_entries (xs @ ys) = appended_entries xs @ appended_entries ys"
  by (induction xs rule: appended_entries.induct) simp_all

lemma appended_entries_writes:
  "appended_entries (map (\<lambda>frame. Write f [row_of_frame frame]) trj) = []"
  by (induction trj) simp_all

lemma merge_units_order:
  "merge_units f name load us h = (res, h', evs) \<Longrightarrow> subseq (appended_entries evs) us"
proof (induction us arbitrary: h res h' evs)
  case Nil
  then show ?case by simp
next
  case (Cons u us)
  from Cons.prems show ?case
  proof (cases rule: merge_units_step)
    case (skip evs1)
    from Cons.IH [OF skip(2)] skip(3) show ?thesis by (simp add: list_emb_Cons)
  next
    case (load_fail e)
    then show ?thesis by simp
  next
    case (append_fail trj)
    then show ?thesis by (simp add: appended_entries_writes)
  next
    case (merged trj evs1)
    from Cons.IH [OF merged(4)] merged(5) show ?thesis
      by (simp add: appended_entries_append appended_entries_writes)
  qed
qed

lemma ledger_init_store: "ledger name (fst (init_store f name t h)) = ledger name h"
  by (simp add: init_store_def ledger_def split: option.splits)



lemma init_store_replay: "fst (init_store f name t h) = replay h (snd (init_store f name t h))"
  by (simp add: init_store_def replay_def split: option.splits)

lemma init_store_plain: "\<forall>x\<in>set (snd (init_store f name t h)). \<not> is_append x"
  by (simp add: init_store_def split: option.splits)

lemma appended_init_store: "appended_entries (snd (init_store f name t h)) = []"
  by (simp add: init_store_def split: option.splits)

lemma ledger_open_append: "ledger name (open_append disk) = disk_ledger name disk"
  by (simp add: open_append_def disk_ledger_def ledger_def empty_hdf5_def split: option.splits)




lemma merge_units_abort:
  assumes "list_all (\<lambda>v. v \<in> set (ledger name h) \<or> (succeeded (load v) \<and> is_ascii v)) pre"
    and "u \<notin> set (ledger name h)" and "u \<notin> set (map (StringAtom 1024) pre)"
    and "load u = Inl e"
  shows "\<exists>h' evs0. merge_units f name load (pre @ u # post) h
            = (Raised e, h', evs0 @ [Print (Processing u), Load u])
          \<and> u \<notin> set (ledger name h')
          \<and> list_all (\<lambda>v. v \<in> set (ledger name h') \<or> (succeeded (load v) \<and> is_ascii v)) pre"
  using assms
proof (induction pre arbitrary: h)
  case Nil
  then show ?case by simp
next
  case (Cons v pre)
  from Cons.prems have
    pre: "list_all (\<lambda>v. v \<in> set (ledger name h) \<or> (succeeded (load v) \<and> is_ascii v)) pre"
    and v: "v \<in> set (ledger name h) \<or> (succeeded (load v) \<and> is_ascii v)"
    and uv: "u \<noteq> StringAtom 1024 v" and upre: "u \<notin> set (map (StringAtom 1024) pre)"
    by auto
  show ?case
  proof (cases "v \<in> set (ledger name h)")
    case True
    from Cons.IH [OF pre Cons.prems(2) upre Cons.prems(4)] obtain h' evs0 where
      r: "merge_units f name load (pre @ u # post) h
            = (Raised e, h', evs0 @ [Print (Processing u), Load u])"
      "u \<notin> set (ledger name h')"
      "list_all (\<lambda>v. v \<in> set (ledger name h') \<or> (succeeded (load v) \<and> is_ascii v)) pre"
      by blast
    from merge_units_ledger_subset [OF r(1)] True have "v \<in> set (ledger name h')" by auto
    with r True show ?thesis
      by (intro exI [of _ h'] exI [of _ "Print (AlreadyProcessed v) # evs0"]) simp
  next
    case False
    with v obtain trj where l: "load v = Inr trj" and av: "is_ascii v"
      by (auto simp: succeeded_def split: sum.splits)
    let ?h1 = "h5_append name [v] (write_frames trj h)"
    have l1: "ledger name ?h1 = ledger name h @ [StringAtom 1024 v]"
      by (rule ledger_merged_unit)
    have pre1: "list_all (\<lambda>v. v \<in> set (ledger name ?h1) \<or> (succeeded (load v) \<and> is_ascii v)) pre"
      using pre by (auto simp: l1 list_all_iff)
    have u1: "u \<notin> set (ledger name ?h1)"
      using Cons.prems(2) uv by (simp add: l1)
    from Cons.IH [OF pre1 u1 upre Cons.prems(4)] obtain h' evs0 where
      r: "merge_units f name load (pre @ u # post) ?h1
            = (Raised e, h', evs0 @ [Print (Processing u), Load u])"
      "u \<notin> set (ledger name h')"
      "list_all (\<lambda>v. v \<in> set (ledger name h') \<or> (succeeded (load v) \<and> is_ascii v)) pre"
      by blast
    have "succeeded (load v)" using l by (simp add: succeeded_def)
    with r l av False show ?thesis
      by (intro exI [of _ h']
          exI [of _ "[Print (Processing v), Load v]
                     @ map (\<lambda>frame. Write f [row_of_frame frame]) trj
                     @ [Append f name [v]] @ evs0"]) (simp add: h5_append_str_one)
  qed
qed

lemma concatenate_core17_eq:
  "concatenate_core17 glob load path t out disk =
     (if sorted_by list_lt keynat (glob (os_path_join path ''results-*.tar.bz2'')) = []
      then (Returned, disk, [])
      else (outcome_of (merge_units out ''processed_filenames'' load
                (sorted_by list_lt keynat (glob (os_path_join path ''results-*.tar.bz2'')))
                (fst (init_store out ''processed_filenames'' t (open_append disk)))),
            Some (file_of (merge_units out ''processed_filenames'' load
                (sorted_by list_lt keynat (glob (os_path_join path ''results-*.tar.bz2'')))
                (fst (init_store out ''processed_filenames'' t (open_append disk))))),
            Open out ''a'' # snd (init_store out ''processed_filenames'' t (open_append disk))
            @ trace_of (merge_units out ''processed_filenames'' load
                (sorted_by list_lt keynat (glob (os_path_join path ''results-*.tar.bz2'')))
                (fst (init_store out ''processed_filenames'' t (open_append disk))))))"
  by (simp add: concatenate_core17_def Let_def split: prod.splits)

lemma concatenate_core17_filenames_eq:
  "concatenate_core17_filenames glob load md_load_top path top_filename out disk =
     (case md_load_top top_filename of
        Inl e \<Rightarrow> (Raised e, disk, [Print (Echo out)])
      | Inr t \<Rightarrow>
     (if sorted_by list_lt keynat (glob (os_path_join path ''results-*.tar.bz2'')) = []
      then (Returned, disk, [Print (Echo out)])
      else ((case outcome_of (merge_units out ''processed_filenames'' load
                (sorted_by list_lt keynat (glob (os_path_join path ''results-*.tar.bz2'')))
                (fst (init_store out ''processed_filenames'' t (open_append disk)))) of
               Raised RuntimeError \<Rightarrow> Raised NameError
             | res \<Rightarrow> res),
            Some (file_of (merge_units out ''processed_filenames'' load
                (sorted_by list_lt keynat (glob (os_path_join path ''results-*.tar.bz2'')))
                (fst (init_store out ''processed_filenames'' t (open_append disk))))),
            Print (Echo out) # Open out ''a''
            # snd (init_store out ''processed_filenames'' t (open_append disk))
            @ trace_of (merge_units out ''processed_filenames'' load
                (sorted_by list_lt keynat (glob (os_path_join path ''results-*.tar.bz2'')))
                (fst (init_store out ''processed_filenames'' t (open_append disk)))))))"
  by (simp add: concatenate_core17_filenames_def Let_def split: prod.splits sum.splits outcome.splits exn.splits)

lemma concatenate_ocore_eq:
  "concatenate_ocore listdir md_load path t out disk =
     (case listdir path of
        Inl e \<Rightarrow> (Raised e, disk, [])
      | Inr entries \<Rightarrow>
          (case int_keys entries of
             Inl e \<Rightarrow> (Raised e, disk, [])
           | Inr keyed \<Rightarrow>
     (if ocore_folders path keyed = []
      then (Returned, disk, [])
      else (outcome_of (merge_units out ''processed_folders''
                (\<lambda>folder. md_load (os_path_join folder ''frames.xtc''))
                (ocore_folders path keyed)
                (fst (init_store out ''processed_folders'' t (open_append disk)))),
            Some (file_of (merge_units out ''processed_folders''
                (\<lambda>folder. md_load (os_path_join folder ''frames.xtc''))
                (ocore_folders path keyed)
                (fst (init_store out ''processed_folders'' t (open_append disk))))),
            Open out ''a'' # snd (init_store out ''processed_folders'' t (open_append disk))
            @ trace_of (merge_units out ''processed_folders''
                (\<lambda>folder. md_load (os_path_join folder ''frames.xtc''))
                (ocore_folders path keyed)
                (fst (init_store out ''processed_folders'' t (open_append disk))))))))"
  by (simp add: concatenate_ocore_def ocore_folders_def Let_def split: prod.splits sum.splits)











lemma run_trace:
  assumes m: "merge_units f n load us (fst (init_store f n t (open_append disk))) = (res, h', evs)"
  shows "paired f n load (Open f ''a'' # snd (init_store f n t (open_append disk)) @ evs)"
    and "subseq (appended_entries (Open f ''a'' # snd (init_store f n t (open_append disk)) @ evs)) us"
    and "replay (open_append disk) (Open f ''a'' # snd (init_store f n t (open_append disk)) @ evs) = h'"
proof -
  have "paired f n load (snd (init_store f n t (open_append disk)) @ evs)"
    by (rule paired_prefix [OF init_store_plain merge_units_paired [OF m]])
  then show "paired f n load (Open f ''a'' # snd (init_store f n t (open_append disk)) @ evs)"
    by (simp add: paired_plain)
  show "subseq (appended_entries (Open f ''a'' # snd (init_store f n t (open_append disk)) @ evs)) us"
    using merge_units_order [OF m]
    by (simp add: appended_entries_append appended_init_store)
  have "replay (open_append disk) (Open f ''a'' # snd (init_store f n t (open_append disk)) @ evs)
        = replay (replay (open_append disk) (snd (init_store f n t (open_append disk)))) evs"
    by (simp add: replay_Cons replay_append)
  also have "\<dots> = replay (fst (init_store f n t (open_append disk))) evs"
    by (simp add: init_store_replay [symmetric])
  also have "\<dots> = h'"
    using merge_units_replay [OF m] by simp
  finally show "replay (open_append disk)
      (Open f ''a'' # snd (init_store f n t (open_append disk)) @ evs) = h'" .
qed

lemma run_trace_all:
  "paired f n load (Open f ''a'' # snd (init_store f n t (open_append disk))
       @ trace_of (merge_units f n load us (fst (init_store f n t (open_append disk)))))
   \<and> subseq (appended_entries (Open f ''a'' # snd (init_store f n t (open_append disk))
       @ trace_of (merge_units f n load us (fst (init_store f n t (open_append disk)))))) us
   \<and> replay (open_append disk) (Open f ''a'' # snd (init_store f n t (open_append disk))
       @ trace_of (merge_units f n load us (fst (init_store f n t (open_append disk)))))
     = file_of (merge_units f n load us (fst (init_store f n t (open_append disk))))"
proof -
  obtain res h' evs where
    m: "merge_units f n load us (fst (init_store f n t (open_append disk))) = (res, h', evs)"
    by (metis prod_cases3)
  from run_trace [OF m] m show ?thesis by simp
qed

text \<open>The run on the clone directory with two sound archives.\<close>

lemma run_two_ok:
  "concatenate_core17 glob_two load_ok ''/d'' () ''out.h5'' None
   = (Returned,
      Some \<lparr>frames = Some [row_of_frame frame_a, row_of_frame frame_b,
                            row_of_frame frame_a, row_of_frame frame_b],
            topology = Some (),
            earrays = [''processed_filenames'' \<mapsto>
                         [''/d/results-9.tar.bz2'', ''/d/results-10.tar.bz2'']]\<rparr>,
      [Open ''out.h5'' ''a'', CreateEArray ''out.h5'' ''processed_filenames'',
       SetTopology ''out.h5'' (),
       Print (Processing ''/d/results-9.tar.bz2''), Load ''/d/results-9.tar.bz2'',
       Write ''out.h5'' [row_of_frame frame_a], Write ''out.h5'' [row_of_frame frame_b],
       Append ''out.h5'' ''processed_filenames'' [''/d/results-9.tar.bz2''],
       Print (Processing ''/d/results-10.tar.bz2''), Load ''/d/results-10.tar.bz2'',
       Write ''out.h5'' [row_of_frame frame_a], Write ''out.h5'' [row_of_frame frame_b],
       Append ''out.h5'' ''processed_filenames'' [''/d/results-10.tar.bz2'']])"
  by (simp add: concatenate_core17_def glob_two_def sorted_by_def keynat_def keynat_step.simps
      int_of_char_def load_ok_def Let_def init_store_def open_append_def empty_hdf5_def
      ledger_def h5_append_def write_frames_def h5_write_def stored_frames_def StringAtom_def
      h5_append_str_def is_ascii_def)


lemma run_abort:
  assumes "list_all (\<lambda>v. v \<in> set (disk_ledger n disk)
                        \<or> (succeeded (load v) \<and> is_ascii v)) pre"
    and "u \<notin> set (disk_ledger n disk)" and "u \<notin> set (map (StringAtom 1024) pre)"
    and "load u = Inl e"
  shows "\<exists>h' evs0.
           merge_units f n load (pre @ u # post) (fst (init_store f n t (open_append disk)))
             = (Raised e, h', evs0 @ [Print (Processing u), Load u])
           \<and> u \<notin> set (ledger n h')
           \<and> (\<exists>h'' evs1.
                merge_units f n load (pre @ u # post) (fst (init_store f n t (open_append (Some h'))))
                  = (Raised e, h'', evs1 @ [Print (Processing u), Load u])
                \<and> u \<notin> set (ledger n h''))"
proof -
  let ?h0 = "fst (init_store f n t (open_append disk))"
  have l0: "ledger n ?h0 = disk_ledger n disk"
    by (simp add: ledger_init_store ledger_open_append)
  from merge_units_abort [of n ?h0 load pre u e f post] assms l0
  obtain h' evs0 where
    r: "merge_units f n load (pre @ u # post) ?h0
          = (Raised e, h', evs0 @ [Print (Processing u), Load u])"
    "u \<notin> set (ledger n h')"
    "list_all (\<lambda>v. v \<in> set (ledger n h') \<or> (succeeded (load v) \<and> is_ascii v)) pre"
    by auto
  let ?h1 = "fst (init_store f n t (open_append (Some h')))"
  have l1: "ledger n ?h1 = ledger n h'"
    by (simp add: ledger_init_store open_append_def)
  from merge_units_abort [of n ?h1 load pre u e f post] r(2,3) assms(3,4) l1
  obtain h'' evs1 where
    "merge_units f n load (pre @ u # post) ?h1
          = (Raised e, h'', evs1 @ [Print (Processing u), Load u])"
    "u \<notin> set (ledger n h'')"
    by auto
  with r show ?thesis by blast
qed

lemma sorted_two:
  "sorted_by list_lt keynat (glob_two (os_path_join ''/d'' ''results-*.tar.bz2''))
   = [''/d/results-9.tar.bz2''] @ ''/d/results-10.tar.bz2'' # []"
  by (simp add: glob_two_def sorted_by_def keynat_def keynat_step.simps int_of_char_def)


subsection \<open>Merging\<close>







text \<open>
  The bound on the characters is needed as well. The identifier of line 194 is a
  \<^verbatim>\<open>str\<close>; under Python 3 one with a character outside ASCII is refused by the ledger
  array with \<^verbatim>\<open>UnicodeEncodeError\<close>, after the frames of the unit were written. The run
  aborts with one frame in the file and an empty ledger, and the second run writes the
  frame again and aborts the same way.
\<close>

lemma merge_twice_non_ascii_identifier:
  "outcome_of (concatenate_core17 glob_accent load_one accent_clone_dir () ''out.h5'' None)
     = Raised UnicodeEncodeError
   \<and> length (disk_frames (file_of
      (concatenate_core17 glob_accent load_one accent_clone_dir () ''out.h5'' None))) = 1
   \<and> disk_ledger ''processed_filenames'' (file_of
      (concatenate_core17 glob_accent load_one accent_clone_dir () ''out.h5'' None)) = []
   \<and> outcome_of (concatenate_core17 glob_accent load_one accent_clone_dir () ''out.h5''
        (file_of (concatenate_core17 glob_accent load_one accent_clone_dir () ''out.h5'' None)))
     = Raised UnicodeEncodeError
   \<and> length (disk_frames (file_of
      (concatenate_core17 glob_accent load_one accent_clone_dir () ''out.h5''
        (file_of (concatenate_core17 glob_accent load_one accent_clone_dir () ''out.h5'' None))))) = 2
   \<and> disk_ledger ''processed_filenames'' (file_of
      (concatenate_core17 glob_accent load_one accent_clone_dir () ''out.h5''
        (file_of (concatenate_core17 glob_accent load_one accent_clone_dir () ''out.h5'' None)))) = []"
proof -
  have na: "\<not> is_ascii accent_unit"
    by (simp add: is_ascii_def accent_unit_def accent_clone_dir_def os_path_join_def)
  have once: "concatenate_core17 glob_accent load_one accent_clone_dir () ''out.h5'' None
    = (Raised UnicodeEncodeError,
       Some \<lparr>frames = Some [row_of_frame frame_a], topology = Some (),
             earrays = [''processed_filenames'' \<mapsto> []]\<rparr>,
       [Open ''out.h5'' ''a'', CreateEArray ''out.h5'' ''processed_filenames'',
        SetTopology ''out.h5'' (), Print (Processing accent_unit), Load accent_unit,
        Write ''out.h5'' [row_of_frame frame_a]])"
    using na
    by (simp add: concatenate_core17_def glob_accent_def sorted_by_def load_one_def Let_def
        init_store_def open_append_def empty_hdf5_def ledger_def write_frames_def
        h5_write_def stored_frames_def h5_append_str_def)
  have twice: "concatenate_core17 glob_accent load_one accent_clone_dir () ''out.h5''
       (Some \<lparr>frames = Some [row_of_frame frame_a], topology = Some (),
              earrays = [''processed_filenames'' \<mapsto> []]\<rparr>)
    = (Raised UnicodeEncodeError,
       Some \<lparr>frames = Some [row_of_frame frame_a, row_of_frame frame_a], topology = Some (),
             earrays = [''processed_filenames'' \<mapsto> []]\<rparr>,
       [Open ''out.h5'' ''a'', Print (Processing accent_unit), Load accent_unit,
        Write ''out.h5'' [row_of_frame frame_a]])"
    using na
    by (simp add: concatenate_core17_def glob_accent_def sorted_by_def load_one_def Let_def
        init_store_def open_append_def empty_hdf5_def ledger_def write_frames_def
        h5_write_def stored_frames_def h5_append_str_def)
  show ?thesis
    by (simp add: once twice disk_frames_def disk_ledger_def
        stored_frames_def ledger_def)
qed

text \<open>
  C4. In the trace of a merge, every ledger append names one unit and comes right after
  the load of that unit and the writes of all its frames, with nothing in between; the
  units are appended in the order of the sorted list, each append on its own; and the
  file after the call is the file before it with the events of the trace applied in
  that order. So no identifier is in the ledger before the frames of its unit are in
  the frame sequence. Stated for \<^verbatim>\<open>concatenate_core17\<close> and \<^verbatim>\<open>concatenate_ocore\<close>.
\<close>

theorem ledger_append_follows_frames:
  "paired out ''processed_filenames'' load (trace_of (concatenate_core17 glob load path t out disk))
   \<and> subseq (appended_entries (trace_of (concatenate_core17 glob load path t out disk)))
        (sorted_by list_lt keynat (glob (os_path_join path ''results-*.tar.bz2'')))
   \<and> file_of (concatenate_core17 glob load path t out disk)
      = (if list_ex touches_store (trace_of (concatenate_core17 glob load path t out disk))
         then Some (replay (open_append disk) (trace_of (concatenate_core17 glob load path t out disk)))
         else disk)
   \<and> paired out ''processed_folders'' (\<lambda>folder. md_load (os_path_join folder ''frames.xtc''))
        (trace_of (concatenate_ocore listdir md_load path t out disk))
   \<and> (case listdir path of
         Inl e \<Rightarrow> appended_entries (trace_of (concatenate_ocore listdir md_load path t out disk)) = []
       | Inr entries \<Rightarrow>
           (case int_keys entries of
              Inl e \<Rightarrow>
                appended_entries (trace_of (concatenate_ocore listdir md_load path t out disk)) = []
            | Inr keyed \<Rightarrow>
                subseq (appended_entries (trace_of (concatenate_ocore listdir md_load path t out disk)))
                  (ocore_folders path keyed)))
   \<and> file_of (concatenate_ocore listdir md_load path t out disk)
      = (if list_ex touches_store (trace_of (concatenate_ocore listdir md_load path t out disk))
         then Some (replay (open_append disk) (trace_of (concatenate_ocore listdir md_load path t out disk)))
         else disk)"
proof -
  let ?us = "sorted_by list_lt keynat (glob (os_path_join path ''results-*.tar.bz2''))"
  have core: "paired out ''processed_filenames'' load (trace_of (concatenate_core17 glob load path t out disk))
   \<and> subseq (appended_entries (trace_of (concatenate_core17 glob load path t out disk))) ?us
   \<and> file_of (concatenate_core17 glob load path t out disk)
      = (if list_ex touches_store (trace_of (concatenate_core17 glob load path t out disk))
         then Some (replay (open_append disk) (trace_of (concatenate_core17 glob load path t out disk)))
         else disk)"
  proof (cases "?us = []")
    case True
    then show ?thesis by (simp add: concatenate_core17_eq paired_Nil)
  next
    case False
    then show ?thesis
      using run_trace_all [of out "''processed_filenames''" load t disk ?us]
      by (simp add: concatenate_core17_eq)
  qed
  have ocore: "paired out ''processed_folders'' (\<lambda>folder. md_load (os_path_join folder ''frames.xtc''))
        (trace_of (concatenate_ocore listdir md_load path t out disk))
   \<and> (case listdir path of
         Inl e \<Rightarrow> appended_entries (trace_of (concatenate_ocore listdir md_load path t out disk)) = []
       | Inr entries \<Rightarrow>
           (case int_keys entries of
              Inl e \<Rightarrow>
                appended_entries (trace_of (concatenate_ocore listdir md_load path t out disk)) = []
            | Inr keyed \<Rightarrow>
                subseq (appended_entries (trace_of (concatenate_ocore listdir md_load path t out disk)))
                  (ocore_folders path keyed)))
   \<and> file_of (concatenate_ocore listdir md_load path t out disk)
      = (if list_ex touches_store (trace_of (concatenate_ocore listdir md_load path t out disk))
         then Some (replay (open_append disk) (trace_of (concatenate_ocore listdir md_load path t out disk)))
         else disk)"
  proof (cases "listdir path")
    case (Inl e)
    then show ?thesis by (simp add: concatenate_ocore_eq paired_Nil)
  next
    case (Inr entries)
    note ls = this
    show ?thesis
    proof (cases "int_keys entries")
      case (Inl e)
      with ls show ?thesis by (simp add: concatenate_ocore_eq paired_Nil)
    next
      case (Inr keyed)
      show ?thesis
      proof (cases "ocore_folders path keyed = []")
        case True
        with ls Inr show ?thesis by (simp add: concatenate_ocore_eq paired_Nil)
      next
        case False
        with ls Inr show ?thesis
          using run_trace_all [of out "''processed_folders''"
              "\<lambda>folder. md_load (os_path_join folder ''frames.xtc'')" t disk
              "ocore_folders path keyed"]
          by (simp add: concatenate_ocore_eq)
      qed
    qed
  qed
  from core ocore show ?thesis by simp
qed


text \<open>The theorem at the clone directory with two archives of two frames each.\<close>

theorem ledger_append_follows_frames_witness:
  "paired ''out.h5'' ''processed_filenames'' load_ok
     (trace_of (concatenate_core17 glob_two load_ok ''/d'' () ''out.h5'' None))
   \<and> appended_entries (trace_of (concatenate_core17 glob_two load_ok ''/d'' () ''out.h5'' None))
      = [''/d/results-9.tar.bz2'', ''/d/results-10.tar.bz2'']
   \<and> file_of (concatenate_core17 glob_two load_ok ''/d'' () ''out.h5'' None)
      = Some (replay empty_hdf5 (trace_of (concatenate_core17 glob_two load_ok ''/d'' () ''out.h5'' None)))"
  using ledger_append_follows_frames [where glob = glob_two and load = load_ok and path = "''/d''"
      and t = "()" and out = "''out.h5''" and disk = None and listdir = listdir_none
      and md_load = load_ok]
  by (simp add: run_two_ok open_append_def)








text \<open>
  C9. When the load of a unit fails, the merge run aborts and the failed unit stays out
  of the ledger, so that the next run tries it again. Let \<open>u\<close> be the first unit of the
  sorted list that is not in the ledger and whose load raises \<open>e\<close> (the units before it
  are in the ledger or are merged: they load and their identifier is ASCII, so that the
  append of line 194 takes it; none of them is recorded under the identifier \<open>u\<close>).
  Then \<^verbatim>\<open>concatenate_core17\<close> raises \<open>e\<close>; the last effects of the run are the message
  that names \<open>u\<close> and its load; \<open>u\<close> is not in the ledger of the file the run leaves;
  and a second run on that file loads \<open>u\<close> again and ends the same way. The same holds
  for \<^verbatim>\<open>concatenate_core17_filenames\<close>, except that a \<^verbatim>\<open>RuntimeError\<close> reaches the caller
  as the \<^verbatim>\<open>NameError\<close> raised by its handler.
\<close>

theorem load_failure_aborts:
  assumes "sorted_by list_lt keynat (glob (os_path_join path ''results-*.tar.bz2'')) = pre @ u # post"
    and "list_all (\<lambda>v. v \<in> set (disk_ledger ''processed_filenames'' disk)
                        \<or> (succeeded (load v) \<and> is_ascii v)) pre"
    and "u \<notin> set (disk_ledger ''processed_filenames'' disk)"
    and "u \<notin> set (map (StringAtom 1024) pre)"
    and "load u = Inl e"
    and "md_load_top top_filename = Inr t'"
  shows "(\<exists>h' evs0.
            concatenate_core17 glob load path t out disk
              = (Raised e, Some h', evs0 @ [Print (Processing u), Load u])
            \<and> u \<notin> set (ledger ''processed_filenames'' h')
            \<and> (\<exists>h'' evs1.
                 concatenate_core17 glob load path t out (Some h')
                   = (Raised e, Some h'', evs1 @ [Print (Processing u), Load u])
                 \<and> u \<notin> set (ledger ''processed_filenames'' h'')))
       \<and> (\<exists>h' evs0.
            concatenate_core17_filenames glob load md_load_top path top_filename out disk
              = (Raised (if e = RuntimeError then NameError else e), Some h',
                 evs0 @ [Print (Processing u), Load u])
            \<and> u \<notin> set (ledger ''processed_filenames'' h')
            \<and> (\<exists>h'' evs1.
                 concatenate_core17_filenames glob load md_load_top path top_filename out (Some h')
                   = (Raised (if e = RuntimeError then NameError else e), Some h'',
                      evs1 @ [Print (Processing u), Load u])
                 \<and> u \<notin> set (ledger ''processed_filenames'' h'')))"
proof -
  let ?n = "''processed_filenames''"
  have ne: "pre @ u # post \<noteq> []" by simp
  have core: "\<And>t. \<exists>h' evs0.
           merge_units out ?n load (pre @ u # post) (fst (init_store out ?n t (open_append disk)))
             = (Raised e, h', evs0 @ [Print (Processing u), Load u])
           \<and> u \<notin> set (ledger ?n h')
           \<and> (\<exists>h'' evs1.
                merge_units out ?n load (pre @ u # post)
                    (fst (init_store out ?n t (open_append (Some h'))))
                  = (Raised e, h'', evs1 @ [Print (Processing u), Load u])
                \<and> u \<notin> set (ledger ?n h''))"
    by (rule run_abort [OF assms(2) assms(3) assms(4) assms(5)])
  have a: "\<exists>h' evs0.
            concatenate_core17 glob load path t out disk
              = (Raised e, Some h', evs0 @ [Print (Processing u), Load u])
            \<and> u \<notin> set (ledger ''processed_filenames'' h')
            \<and> (\<exists>h'' evs1.
                 concatenate_core17 glob load path t out (Some h')
                   = (Raised e, Some h'', evs1 @ [Print (Processing u), Load u])
                 \<and> u \<notin> set (ledger ''processed_filenames'' h''))"
  proof -
    from core [of t] obtain h' evs0 h'' evs1 where
      r1: "merge_units out ?n load (pre @ u # post) (fst (init_store out ?n t (open_append disk)))
             = (Raised e, h', evs0 @ [Print (Processing u), Load u])"
      and u1: "u \<notin> set (ledger ?n h')"
      and r2: "merge_units out ?n load (pre @ u # post)
                    (fst (init_store out ?n t (open_append (Some h'))))
                  = (Raised e, h'', evs1 @ [Print (Processing u), Load u])"
      and u2: "u \<notin> set (ledger ?n h'')"
      by blast
    have c1: "concatenate_core17 glob load path t out disk
          = (Raised e, Some h',
             (Open out ''a'' # snd (init_store out ?n t (open_append disk)) @ evs0)
             @ [Print (Processing u), Load u])"
      using r1 assms(1) by (simp add: concatenate_core17_eq)
    have c2: "concatenate_core17 glob load path t out (Some h')
          = (Raised e, Some h'',
             (Open out ''a'' # snd (init_store out ?n t (open_append (Some h'))) @ evs1)
             @ [Print (Processing u), Load u])"
      using r2 assms(1) by (simp add: concatenate_core17_eq)
    from c1 c2 u1 u2 show ?thesis by blast
  qed
  have b: "\<exists>h' evs0.
            concatenate_core17_filenames glob load md_load_top path top_filename out disk
              = (Raised (if e = RuntimeError then NameError else e), Some h',
                 evs0 @ [Print (Processing u), Load u])
            \<and> u \<notin> set (ledger ''processed_filenames'' h')
            \<and> (\<exists>h'' evs1.
                 concatenate_core17_filenames glob load md_load_top path top_filename out (Some h')
                   = (Raised (if e = RuntimeError then NameError else e), Some h'',
                      evs1 @ [Print (Processing u), Load u])
                 \<and> u \<notin> set (ledger ''processed_filenames'' h''))"
  proof -
    from core [of t'] obtain h' evs0 h'' evs1 where
      r1: "merge_units out ?n load (pre @ u # post) (fst (init_store out ?n t' (open_append disk)))
             = (Raised e, h', evs0 @ [Print (Processing u), Load u])"
      and u1: "u \<notin> set (ledger ?n h')"
      and r2: "merge_units out ?n load (pre @ u # post)
                    (fst (init_store out ?n t' (open_append (Some h'))))
                  = (Raised e, h'', evs1 @ [Print (Processing u), Load u])"
      and u2: "u \<notin> set (ledger ?n h'')"
      by blast
    have o: "(case Raised e of Raised RuntimeError \<Rightarrow> Raised NameError | res \<Rightarrow> res)
             = Raised (if e = RuntimeError then NameError else e)"
      by (cases e) simp_all
    have c1: "concatenate_core17_filenames glob load md_load_top path top_filename out disk
          = (Raised (if e = RuntimeError then NameError else e), Some h',
             (Print (Echo out) # Open out ''a'' # snd (init_store out ?n t' (open_append disk)) @ evs0)
             @ [Print (Processing u), Load u])"
      using r1 assms(1) assms(6) o by (simp add: concatenate_core17_filenames_eq)
    have c2: "concatenate_core17_filenames glob load md_load_top path top_filename out (Some h')
          = (Raised (if e = RuntimeError then NameError else e), Some h'',
             (Print (Echo out) # Open out ''a''
              # snd (init_store out ?n t' (open_append (Some h'))) @ evs1)
             @ [Print (Processing u), Load u])"
      using r2 assms(1) assms(6) o by (simp add: concatenate_core17_filenames_eq)
    from c1 c2 u1 u2 show ?thesis by blast
  qed
  from a b show ?thesis by (rule conjI)
qed


text \<open>The theorem at the clone directory whose second archive is damaged.\<close>

theorem load_failure_aborts_witness:
  "sorted_by list_lt keynat (glob_two (os_path_join ''/d'' ''results-*.tar.bz2''))
     = [''/d/results-9.tar.bz2''] @ ''/d/results-10.tar.bz2'' # []
   \<and> list_all (\<lambda>v. v \<in> set (disk_ledger ''processed_filenames'' (None :: (nat, unit) hdf5 option))
                  \<or> (succeeded (load_damaged v) \<and> is_ascii v)) [''/d/results-9.tar.bz2'']
   \<and> ''/d/results-10.tar.bz2''
        \<notin> set (disk_ledger ''processed_filenames'' (None :: (nat, unit) hdf5 option))
   \<and> ''/d/results-10.tar.bz2'' \<notin> set (map (StringAtom 1024) [''/d/results-9.tar.bz2''])
   \<and> load_damaged ''/d/results-10.tar.bz2'' = Inl RuntimeError
   \<and> load_top_ok ''top.pdb'' = Inr ()
   \<and> outcome_of (concatenate_core17 glob_two load_damaged ''/d'' () ''out.h5'' None)
      = Raised RuntimeError
   \<and> outcome_of (concatenate_core17_filenames glob_two load_damaged load_top_ok ''/d'' ''top.pdb''
        ''out.h5'' None) = Raised NameError
   \<and> disk_ledger ''processed_filenames''
        (file_of (concatenate_core17 glob_two load_damaged ''/d'' () ''out.h5'' None))
      = [''/d/results-9.tar.bz2'']"
proof -
  have h2: "list_all (\<lambda>v. v \<in> set (disk_ledger ''processed_filenames'' (None :: (nat, unit) hdf5 option))
                  \<or> (succeeded (load_damaged v) \<and> is_ascii v)) [''/d/results-9.tar.bz2'']"
    by (simp add: succeeded_def load_damaged_def is_ascii_def)
  have h3: "''/d/results-10.tar.bz2''
        \<notin> set (disk_ledger ''processed_filenames'' (None :: (nat, unit) hdf5 option))"
    by (simp add: disk_ledger_def)
  have h4: "''/d/results-10.tar.bz2'' \<notin> set (map (StringAtom 1024) [''/d/results-9.tar.bz2''])"
    by (simp add: StringAtom_def)
  have h5: "load_damaged ''/d/results-10.tar.bz2'' = Inl RuntimeError"
    by (simp add: load_damaged_def)
  have h6: "load_top_ok ''top.pdb'' = Inr ()"
    by (simp add: load_top_ok_def)
  have led: "disk_ledger ''processed_filenames''
        (file_of (concatenate_core17 glob_two load_damaged ''/d'' () ''out.h5'' None))
      = [''/d/results-9.tar.bz2'']"
    by (simp add: concatenate_core17_def sorted_two load_damaged_def Let_def init_store_def
        open_append_def empty_hdf5_def ledger_def h5_append_def write_frames_def h5_write_def
        h5_append_str_def is_ascii_def
        stored_frames_def StringAtom_def disk_ledger_def)
  have "outcome_of (concatenate_core17 glob_two load_damaged ''/d'' () ''out.h5'' None)
      = Raised RuntimeError
   \<and> outcome_of (concatenate_core17_filenames glob_two load_damaged load_top_ok ''/d'' ''top.pdb''
        ''out.h5'' None) = Raised NameError"
    using load_failure_aborts [where glob = glob_two and path = "''/d''"
        and pre = "[''/d/results-9.tar.bz2'']" and u = "''/d/results-10.tar.bz2''" and post = "[]"
        and disk = "None :: (nat, unit) hdf5 option" and load = load_damaged and e = RuntimeError
        and md_load_top = load_top_ok and top_filename = "''top.pdb''" and t' = "()"
        and t = "()" and out = "''out.h5''", OF sorted_two h2 h3 h4 h5 h6]
    by auto
  with sorted_two h2 h3 h4 h5 h6 led show ?thesis by simp
qed


text \<open>
  C10. When no archive matches the pattern, or the stream directory lists no folder, the
  merge operation returns at once: the output file is as it was (a file that did not
  exist is not created) and no event of the trace touches it. The variant
  \<^verbatim>\<open>concatenate_core17_filenames\<close> has printed the name of the output file and loaded
  the topology before.
\<close>

theorem merge_no_units_untouched:
  assumes "glob (os_path_join path ''results-*.tar.bz2'') = []"
    and "listdir path = Inr []"
    and "md_load_top top_filename = Inr t'"
  shows "concatenate_core17 glob load path t out disk = (Returned, disk, [])
       \<and> concatenate_core17_filenames glob load md_load_top path top_filename out disk
          = (Returned, disk, [Print (Echo out)])
       \<and> concatenate_ocore listdir md_load path t out disk = (Returned, disk, [])
       \<and> \<not> list_ex touches_store (trace_of (concatenate_core17 glob load path t out disk))
       \<and> \<not> list_ex touches_store
             (trace_of (concatenate_core17_filenames glob load md_load_top path top_filename out disk))
       \<and> \<not> list_ex touches_store (trace_of (concatenate_ocore listdir md_load path t out disk))"
  using assms
  by (simp add: concatenate_core17_def concatenate_core17_filenames_def concatenate_ocore_def
      sorted_by_def)

theorem merge_no_units_untouched_witness:
  "glob_none (os_path_join ''/d'' ''results-*.tar.bz2'') = []
   \<and> listdir_none ''/d'' = Inr []
   \<and> load_top_ok ''top.pdb'' = Inr ()
   \<and> concatenate_core17 glob_none load_ok ''/d'' () ''out.h5'' None = (Returned, None, [])
   \<and> concatenate_core17_filenames glob_none load_ok load_top_ok ''/d'' ''top.pdb'' ''out.h5'' None
      = (Returned, None, [Print (Echo ''out.h5'')])
   \<and> concatenate_ocore listdir_none load_ok ''/d'' () ''out.h5'' None = (Returned, None, [])"
proof -
  have h1: "glob_none (os_path_join ''/d'' ''results-*.tar.bz2'') = []"
    by (simp add: glob_none_def)
  have h2: "listdir_none ''/d'' = Inr []"
    by (simp add: listdir_none_def)
  have h3: "load_top_ok ''top.pdb'' = Inr ()"
    by (simp add: load_top_ok_def)
  show ?thesis
    using h1 h2 h3
      merge_no_units_untouched [where glob = glob_none and path = "''/d''"
        and listdir = listdir_none and md_load_top = load_top_ok
        and top_filename = "''top.pdb''" and load = load_ok and t = "()"
        and out = "''out.h5''" and disk = None and md_load = load_ok]
    by simp
qed


subsection \<open>Deriving the subset store\<close>

lemma init_protein_ok:
  assumes "earrays p key \<noteq> None \<or> topology a \<noteq> None"
  shows "\<exists>p1 evs2. init_protein S pn key idx a p = (Inr (), p1, evs2)
           \<and> stored_frames p1 = stored_frames p \<and> ledger key p1 = ledger key p
           \<and> list_all (\<lambda>e. \<not> is_write e \<and> \<not> is_append e) evs2"
  using assms
  by (auto simp: init_protein_def Let_def stored_frames_def ledger_def split: option.splits)

lemma strip_water_reach:
  assumes "allatom_file w = Some a" and "frames a = Some fa" and "m \<le> int (length fa)"
    and "find_key a = Some (key, la)"
    and "init_protein S pn key idx a (open_append (protein_file w)) = (Inr (), p1, evs2)"
  shows "strip_water S an pn idx m w =
           (outcome_of (derive an pn idx key fa la p1),
            w\<lparr>protein_file := Some (file_of (derive an pn idx key fa la p1))\<rparr>,
            [Open an ''r'', Print (AllAtomHasFrames an (length fa))] @ Open pn ''a'' # evs2
            @ trace_of (derive an pn idx key fa la p1))"
  using assms by (simp add: strip_water_def Let_def split: prod.splits)

lemma derive_checks:
  assumes "\<not> (length (stored_frames p1) < length fa \<and> length (ledger key p1) < length la)"
  shows "outcome_of (derive an pn idx key fa la p1)
         = (if length (stored_frames p1) > length fa
            then Raised (ValueError (MoreFrames (length (stored_frames p1)) (length fa)))
            else if length (ledger key p1) > length la
            then Raised (ValueError (MoreFilenames (length (ledger key p1)) (length la)))
            else if length (stored_frames p1) = length fa \<and> length (ledger key p1) = length la
            then Returned
            else Raised (ValueError MustMatchBothOrNeither))
       \<and> file_of (derive an pn idx key fa la p1) = p1
       \<and> list_all (\<lambda>e. \<not> is_write e \<and> \<not> is_append e) (trace_of (derive an pn idx key fa la p1))"
  using assms
  by (auto simp: derive_def Let_def h5_len_def stored_frames_def split: option.splits)

lemma frames_open_append: "stored_frames (open_append disk) = disk_frames disk"
  by (simp add: open_append_def disk_frames_def stored_frames_def empty_hdf5_def split: option.splits)

lemma gather_Inr:
  "gather xs indices = Inr ys \<Longrightarrow>
   length ys = length indices
   \<and> (\<forall>j<length indices. \<exists>i. py_index (length xs) (indices ! j) = Some i \<and> ys ! j = xs ! i)"
proof (induction indices arbitrary: ys)
  case Nil
  then show ?case by simp
next
  case (Cons i rest)
  from Cons.prems obtain k zs where k: "py_index (length xs) i = Some k"
    and zs: "gather xs rest = Inr zs" and ys: "ys = xs ! k # zs"
    by (auto split: option.splits sum.splits)
  from Cons.IH [OF zs] have len: "length zs = length rest"
    and el: "\<forall>j<length rest. \<exists>i. py_index (length xs) (rest ! j) = Some i \<and> zs ! j = xs ! i"
    by simp_all
  show ?case
  proof (intro conjI allI impI)
    show "length ys = length (i # rest)" using ys len by simp
  next
    fix j assume j: "j < length (i # rest)"
    show "\<exists>ia. py_index (length xs) ((i # rest) ! j) = Some ia \<and> ys ! j = xs ! ia"
    proof (cases j)
      case 0
      with k ys show ?thesis by simp
    next
      case (Suc j')
      with j el ys show ?thesis by simp
    qed
  qed
qed

lemma gather_rows_Inr:
  "gather_rows rs indices = Inr cs \<Longrightarrow>
   length cs = length rs \<and> (\<forall>k<length rs. gather (coordinates (rs ! k)) indices = Inr (cs ! k))"
proof (induction rs arbitrary: cs)
  case Nil
  then show ?case by simp
next
  case (Cons r rs)
  from Cons.prems obtain c cs' where c: "gather (coordinates r) indices = Inr c"
    and cs': "gather_rows rs indices = Inr cs'" and cs: "cs = c # cs'"
    by (auto split: sum.splits)
  from Cons.IH [OF cs'] have len: "length cs' = length rs"
    and el: "\<forall>k<length rs. gather (coordinates (rs ! k)) indices = Inr (cs' ! k)"
    by simp_all
  show ?case
  proof (intro conjI allI impI)
    show "length cs = length (r # rs)" using cs len by simp
  next
    fix k assume k: "k < length (r # rs)"
    show "gather (coordinates ((r # rs) ! k)) indices = Inr (cs ! k)"
    proof (cases k)
      case 0
      with c cs show ?thesis by simp
    next
      case (Suc k')
      with k el cs show ?thesis by simp
    qed
  qed
qed

lemma derive_written:
  assumes "list_ex is_write (trace_of (derive an pn idx key fa la p1))"
  shows "length (stored_frames p1) < length fa \<and> length (ledger key p1) < length la
       \<and> (\<exists>coords.
            gather_rows (drop (length (stored_frames p1)) fa) idx = Inr coords
            \<and> derive an pn idx key fa la p1
              = (Returned,
                 h5_append key (drop (length (ledger key p1)) la)
                   (h5_write (map2 protein_row (drop (length (stored_frames p1)) fa) coords) p1),
                 [Print (FoundCounts (length la) (length (ledger key p1)) (length fa)
                           (length (stored_frames p1)) an pn),
                  Write pn (map2 protein_row (drop (length (stored_frames p1)) fa) coords),
                  Append pn key (drop (length (ledger key p1)) la)]))"
proof -
  have n: "(case h5_len p1 of Inl e \<Rightarrow> 0 | Inr n \<Rightarrow> n) = length (stored_frames p1)"
    by (simp add: h5_len_def stored_frames_def split: option.splits)
  show ?thesis
    using assms unfolding derive_def Let_def n
    by (auto split: if_splits sum.splits)
qed

lemma init_protein_events:
  "init_protein S pn key idx a p = (r, p1, evs2) \<Longrightarrow>
   \<not> list_ex is_write evs2 \<and> stored_frames p1 = stored_frames p \<and> ledger key p1 = ledger key p"
  by (auto simp: init_protein_def Let_def stored_frames_def ledger_def split: option.splits)

lemma strip_water_written:
  assumes "list_ex is_write (trace_of (strip_water S an pn idx m w))"
  shows "\<exists>a fa key la p1 evs2.
           allatom_file w = Some a \<and> frames a = Some fa \<and> m \<le> int (length fa)
           \<and> find_key a = Some (key, la)
           \<and> init_protein S pn key idx a (open_append (protein_file w)) = (Inr (), p1, evs2)
           \<and> \<not> list_ex is_write evs2
           \<and> stored_frames p1 = disk_frames (protein_file w)
           \<and> ledger key p1 = disk_ledger key (protein_file w)
           \<and> list_ex is_write (trace_of (derive an pn idx key fa la p1))"
proof (cases "allatom_file w")
  case None
  with assms show ?thesis by (simp add: strip_water_def)
next
  case (Some a)
  note a = this
  show ?thesis
  proof (cases "frames a")
    case None
    with a assms show ?thesis by (simp add: strip_water_def)
  next
    case (Some fa)
    note fa = this
    show ?thesis
    proof (cases "int (length fa) < m")
      case True
      with a fa assms show ?thesis by (simp add: strip_water_def)
    next
      case False
      note m = this
      show ?thesis
      proof (cases "find_key a")
        case None
        with a fa m assms show ?thesis by (simp add: strip_water_def)
      next
        case (Some kl)
        obtain key la where kl: "kl = (key, la)" by (cases kl)
        obtain r p1 evs2 where
          i: "init_protein S pn key idx a (open_append (protein_file w)) = (r, p1, evs2)"
          by (metis prod_cases3)
        note ev = init_protein_events [OF i]
        show ?thesis
        proof (cases r)
          case (Inl e)
          with a fa m Some kl i ev assms show ?thesis
            by (simp add: strip_water_def)
        next
          case (Inr u)
          with a fa m Some kl i ev assms
          have "list_ex is_write (trace_of (derive an pn idx key fa la p1))"
            by (simp add: strip_water_def split: prod.splits)
          with a fa m Some kl i ev Inr show ?thesis
            by (simp add: frames_open_append ledger_open_append)
        qed
      qed
    qed
  qed
qed

lemma strip_water_derived:
  assumes w: "list_ex is_write (trace_of (strip_water S an pn idx m w))"
  shows "\<exists>a fa key la p1 evs2 coords.
           allatom_file w = Some a \<and> frames a = Some fa \<and> find_key a = Some (key, la)
           \<and> stored_frames p1 = disk_frames (protein_file w)
           \<and> ledger key p1 = disk_ledger key (protein_file w)
           \<and> \<not> list_ex is_write evs2
           \<and> length (disk_frames (protein_file w)) < length fa
           \<and> length (disk_ledger key (protein_file w)) < length la
           \<and> gather_rows (drop (length (disk_frames (protein_file w))) fa) idx = Inr coords
           \<and> strip_water S an pn idx m w
             = (Returned,
                w\<lparr>protein_file := Some
                     (h5_append key (drop (length (disk_ledger key (protein_file w))) la)
                        (h5_write (map2 protein_row
                                     (drop (length (disk_frames (protein_file w))) fa) coords) p1))\<rparr>,
                [Open an ''r'', Print (AllAtomHasFrames an (length fa))] @ Open pn ''a'' # evs2
                @ [Print (FoundCounts (length la) (length (disk_ledger key (protein_file w)))
                            (length fa) (length (disk_frames (protein_file w))) an pn),
                   Write pn (map2 protein_row
                               (drop (length (disk_frames (protein_file w))) fa) coords),
                   Append pn key (drop (length (disk_ledger key (protein_file w))) la)])"
proof -
  from strip_water_written [OF w] obtain a fa key la p1 evs2 where
    a: "allatom_file w = Some a" and fa: "frames a = Some fa" and m: "m \<le> int (length fa)"
    and k: "find_key a = Some (key, la)"
    and i: "init_protein S pn key idx a (open_append (protein_file w)) = (Inr (), p1, evs2)"
    and e2: "\<not> list_ex is_write evs2"
    and f1: "stored_frames p1 = disk_frames (protein_file w)"
    and l1: "ledger key p1 = disk_ledger key (protein_file w)"
    and d: "list_ex is_write (trace_of (derive an pn idx key fa la p1))"
    by blast
  from derive_written [OF d] obtain coords where
    lt: "length (stored_frames p1) < length fa" "length (ledger key p1) < length la"
    and g: "gather_rows (drop (length (stored_frames p1)) fa) idx = Inr coords"
    and dr: "derive an pn idx key fa la p1
              = (Returned,
                 h5_append key (drop (length (ledger key p1)) la)
                   (h5_write (map2 protein_row (drop (length (stored_frames p1)) fa) coords) p1),
                 [Print (FoundCounts (length la) (length (ledger key p1)) (length fa)
                           (length (stored_frames p1)) an pn),
                  Write pn (map2 protein_row (drop (length (stored_frames p1)) fa) coords),
                  Append pn key (drop (length (ledger key p1)) la)])"
    by blast
  note r = strip_water_reach [OF a fa m k i, of an]
  show ?thesis
    using a fa k f1 l1 e2 lt g
    by (intro exI [of _ a] exI [of _ fa] exI [of _ key] exI [of _ la] exI [of _ p1]
        exI [of _ evs2] exI [of _ coords]) (simp add: r dr)
qed

lemma find_key_ledger: "find_key a = Some (key, la) \<Longrightarrow> ledger key a = la"
  by (auto simp: find_key_def ledger_def split: option.splits)

lemma StringAtom_fits: "list_all (\<lambda>e. length e \<le> 1024) es \<Longrightarrow> map (StringAtom 1024) es = es"
  by (induction es) (simp_all add: StringAtom_def)

lemma stored_frames_h5_write: "stored_frames (h5_write rows h) = stored_frames h @ rows"
  by (simp add: h5_write_def stored_frames_def)

lemma stored_frames_h5_append: "stored_frames (h5_append name es h) = stored_frames h"
  by (simp add: h5_append_def stored_frames_def)

lemma disk_frames_Some: "disk_frames (Some h) = stored_frames h"
  by (simp add: disk_frames_def)

lemma disk_ledger_Some: "disk_ledger name (Some h) = ledger name h"
  by (simp add: disk_ledger_def)

lemma find_key_frames: "frames a = Some fa \<Longrightarrow> stored_frames a = fa"
  by (simp add: stored_frames_def)

lemma find_key_sample:
  "find_key allatom_sample
   = Some (''processed_filenames'', [''/d/results-0.tar.bz2'', ''/d/results-1.tar.bz2''])"
  by (simp add: find_key_def allatom_sample_def)

lemma frames_sample: "frames allatom_sample = Some [full_row 0, full_row 1, full_row 2]"
  by (simp add: allatom_sample_def)

lemma strip_behind_run:
  "strip_water keep_topology ''full.h5'' ''protein.h5'' [0, 2, -1] 1
     \<lparr>allatom_file = Some allatom_sample, protein_file = Some protein_behind\<rparr>
   = (Returned,
      \<lparr>allatom_file = Some allatom_sample,
       protein_file = Some
         \<lparr>frames = Some [protein_row (full_row 0) [0, 200, 300],
                         protein_row (full_row 1) [1, 201, 301],
                         protein_row (full_row 2) [2, 202, 302]],
          topology = Some (),
          earrays = [''processed_filenames'' \<mapsto>
                       [''/d/results-0.tar.bz2'', ''/d/results-1.tar.bz2'']]\<rparr>\<rparr>,
      [Open ''full.h5'' ''r'', Print (AllAtomHasFrames ''full.h5'' 3),
       Open ''protein.h5'' ''a'',
       Print (FoundCounts 2 1 3 1 ''full.h5'' ''protein.h5''),
       Write ''protein.h5'' [protein_row (full_row 1) [1, 201, 301],
                             protein_row (full_row 2) [2, 202, 302]],
       Append ''protein.h5'' ''processed_filenames'' [''/d/results-1.tar.bz2'']])"
  by (simp add: strip_water_def frames_sample find_key_sample init_protein_def open_append_def
      derive_def Let_def h5_len_def ledger_def h5_write_def h5_append_def stored_frames_def
      StringAtom_def py_index_def protein_behind_def full_row_def protein_row_def)

lemma frameless_left_by_merge:
  "concatenate_core17 glob_two load_none ''/d'' () ''full.h5'' None
   = (Raised IOError, Some allatom_frameless,
      [Open ''full.h5'' ''a'', CreateEArray ''full.h5'' ''processed_filenames'',
       SetTopology ''full.h5'' (),
       Print (Processing ''/d/results-9.tar.bz2''), Load ''/d/results-9.tar.bz2''])"
  by (simp add: concatenate_core17_def glob_two_def sorted_by_def keynat_def keynat_step.simps
      int_of_char_def load_none_def Let_def init_store_def open_append_def empty_hdf5_def
      ledger_def allatom_frameless_def)


text \<open>
  C2. After a call of \<^verbatim>\<open>strip_water\<close> that returned and wrote frames, the protein file
  has as many frames as the all-atom file and as many ledger entries, and its ledger is
  the ledger it had followed by the entries of the all-atom ledger from that offset on,
  unchanged and in their order. The entries of the all-atom ledger are at most 1024
  bytes long, as every entry of an array created with \<^verbatim>\<open>StringAtom(1024)\<close> is. The
  all-atom file is not changed.
\<close>

theorem strip_water_catches_up:
  assumes "outcome_of (strip_water S an pn idx m w) = Returned"
    and "list_ex is_write (trace_of (strip_water S an pn idx m w))"
    and "allatom_file w = Some a" and "find_key a = Some (key, la)"
    and "list_all (\<lambda>e. length e \<le> 1024) la"
  shows "allatom_file (file_of (strip_water S an pn idx m w)) = Some a
       \<and> length (disk_frames (protein_file (file_of (strip_water S an pn idx m w))))
          = length (stored_frames a)
       \<and> length (disk_ledger key (protein_file (file_of (strip_water S an pn idx m w))))
          = length la
       \<and> disk_ledger key (protein_file (file_of (strip_water S an pn idx m w)))
          = disk_ledger key (protein_file w) @ drop (length (disk_ledger key (protein_file w))) la"
proof -
  from strip_water_derived [OF assms(2)] assms(3) assms(4)
  obtain fa p1 evs2 coords where
    fa: "frames a = Some fa"
    and f1: "stored_frames p1 = disk_frames (protein_file w)"
    and l1: "ledger key p1 = disk_ledger key (protein_file w)"
    and lt: "length (disk_frames (protein_file w)) < length fa"
      "length (disk_ledger key (protein_file w)) < length la"
    and g: "gather_rows (drop (length (disk_frames (protein_file w))) fa) idx = Inr coords"
    and r: "file_of (strip_water S an pn idx m w)
             = w\<lparr>protein_file := Some
                     (h5_append key (drop (length (disk_ledger key (protein_file w))) la)
                        (h5_write (map2 protein_row
                                     (drop (length (disk_frames (protein_file w))) fa) coords) p1))\<rparr>"
    by fastforce
  from gather_rows_Inr [OF g]
  have lc: "length coords = length fa - length (disk_frames (protein_file w))" by simp
  have fit: "map (StringAtom 1024) (drop (length (disk_ledger key (protein_file w))) la)
             = drop (length (disk_ledger key (protein_file w))) la"
    by (rule StringAtom_fits) (use assms(5) in \<open>auto simp: list_all_iff dest: in_set_dropD\<close>)
  show ?thesis
    using lt lc assms(3)
    by (simp add: r disk_frames_Some disk_ledger_Some stored_frames_h5_append
        stored_frames_h5_write ledger_h5_append ledger_h5_write f1 l1 fit
        find_key_frames [OF fa])
qed


text \<open>The theorem at a protein file that is one unit and one frame behind.\<close>

theorem strip_water_catches_up_witness:
  "outcome_of (strip_water keep_topology ''full.h5'' ''protein.h5'' [0, 2, -1] 1
       \<lparr>allatom_file = Some allatom_sample, protein_file = Some protein_behind\<rparr>) = Returned
   \<and> list_ex is_write (trace_of (strip_water keep_topology ''full.h5'' ''protein.h5'' [0, 2, -1] 1
       \<lparr>allatom_file = Some allatom_sample, protein_file = Some protein_behind\<rparr>))
   \<and> find_key allatom_sample
      = Some (''processed_filenames'', [''/d/results-0.tar.bz2'', ''/d/results-1.tar.bz2''])
   \<and> list_all (\<lambda>e. length e \<le> 1024) [''/d/results-0.tar.bz2'', ''/d/results-1.tar.bz2'']
   \<and> length (disk_frames (protein_file (file_of
         (strip_water keep_topology ''full.h5'' ''protein.h5'' [0, 2, -1] 1
            \<lparr>allatom_file = Some allatom_sample, protein_file = Some protein_behind\<rparr>)))) = 3
   \<and> disk_ledger ''processed_filenames'' (protein_file (file_of
         (strip_water keep_topology ''full.h5'' ''protein.h5'' [0, 2, -1] 1
            \<lparr>allatom_file = Some allatom_sample, protein_file = Some protein_behind\<rparr>)))
      = [''/d/results-0.tar.bz2'', ''/d/results-1.tar.bz2'']"
proof -
  let ?w = "\<lparr>allatom_file = Some allatom_sample, protein_file = Some protein_behind\<rparr>"
  let ?R = "strip_water keep_topology ''full.h5'' ''protein.h5'' [0, 2, -1] 1 ?w"
  have h1: "outcome_of ?R = Returned" by (simp add: strip_behind_run)
  have h2: "list_ex is_write (trace_of ?R)" by (simp add: strip_behind_run)
  have h3: "allatom_file ?w = Some allatom_sample" by simp
  have h5: "list_all (\<lambda>e. length e \<le> 1024) [''/d/results-0.tar.bz2'', ''/d/results-1.tar.bz2'']"
    by simp
  have pl: "disk_ledger ''processed_filenames'' (Some protein_behind) = [''/d/results-0.tar.bz2'']"
    by (simp add: disk_ledger_def ledger_def protein_behind_def)
  have sf: "length (stored_frames allatom_sample) = 3"
    by (simp add: stored_frames_def allatom_sample_def)
  from strip_water_catches_up [OF h1 h2 h3 find_key_sample h5]
  show ?thesis
    using h1 h2 h5 find_key_sample by (simp add: pl sf)
qed


text \<open>
  C3. Once \<^verbatim>\<open>strip_water\<close> has read the four counts (the all-atom file exists, has at
  least \<^verbatim>\<open>min_num_frames\<close> frames and a ledger, and the protein file is initialised or
  can be), and the protein file is not behind in both counts: it raises
  \<^verbatim>\<open>ValueError\<close> when the protein file has more frames, or more ledger entries, or is
  level with the all-atom file in exactly one of the two counts, and it returns when it
  is level in both. In each of these cases the all-atom file, the frames and the ledger
  of the protein file are as before, and the trace holds no write and no ledger append.
\<close>

theorem strip_water_lockstep_checks:
  assumes "allatom_file w = Some a" and "frames a = Some fa" and "m \<le> int (length fa)"
    and "find_key a = Some (key, la)"
    and "earrays (open_append (protein_file w)) key \<noteq> None \<or> topology a \<noteq> None"
    and "\<not> (length (disk_frames (protein_file w)) < length fa
            \<and> length (disk_ledger key (protein_file w)) < length la)"
  shows "outcome_of (strip_water S an pn idx m w)
         = (if length (disk_frames (protein_file w)) > length fa
            then Raised (ValueError (MoreFrames (length (disk_frames (protein_file w))) (length fa)))
            else if length (disk_ledger key (protein_file w)) > length la
            then Raised (ValueError (MoreFilenames (length (disk_ledger key (protein_file w)))
                                       (length la)))
            else if length (disk_frames (protein_file w)) = length fa
                    \<and> length (disk_ledger key (protein_file w)) = length la
            then Returned
            else Raised (ValueError MustMatchBothOrNeither))
       \<and> allatom_file (file_of (strip_water S an pn idx m w)) = allatom_file w
       \<and> disk_frames (protein_file (file_of (strip_water S an pn idx m w)))
          = disk_frames (protein_file w)
       \<and> disk_ledger key (protein_file (file_of (strip_water S an pn idx m w)))
          = disk_ledger key (protein_file w)
       \<and> list_all (\<lambda>e. \<not> is_write e \<and> \<not> is_append e) (trace_of (strip_water S an pn idx m w))"
proof -
  from init_protein_ok [OF assms(5), of S pn idx] obtain p1 evs2 where
    i: "init_protein S pn key idx a (open_append (protein_file w)) = (Inr (), p1, evs2)"
    and f1: "stored_frames p1 = disk_frames (protein_file w)"
    and l1: "ledger key p1 = disk_ledger key (protein_file w)"
    and e2: "list_all (\<lambda>e. \<not> is_write e \<and> \<not> is_append e) evs2"
    by (auto simp: frames_open_append ledger_open_append)
  have n: "\<not> (length (stored_frames p1) < length fa \<and> length (ledger key p1) < length la)"
    using assms(6) by (simp add: f1 l1)
  note d = derive_checks [OF n, of an pn idx]
  note r = strip_water_reach [OF assms(1) assms(2) assms(3) assms(4) i, of an]
  show ?thesis
    using d e2 by (simp add: r f1 l1 disk_frames_def disk_ledger_def)
qed


text \<open>
  The theorem at a protein file that has all three frames and one of the two ledger
  entries.
\<close>

theorem strip_water_lockstep_checks_witness:
  "frames allatom_sample = Some [full_row 0, full_row 1, full_row 2]
   \<and> (1 :: int) \<le> int (length [full_row 0, full_row 1, full_row 2])
   \<and> find_key allatom_sample
      = Some (''processed_filenames'', [''/d/results-0.tar.bz2'', ''/d/results-1.tar.bz2''])
   \<and> earrays (open_append (Some protein_offstep)) ''processed_filenames'' \<noteq> None
   \<and> length (disk_frames (Some protein_offstep)) = 3
   \<and> length (disk_ledger ''processed_filenames'' (Some protein_offstep)) = 1
   \<and> strip_water keep_topology ''full.h5'' ''protein.h5'' [0, 2, -1] 1
        \<lparr>allatom_file = Some allatom_sample, protein_file = Some protein_offstep\<rparr>
      = (Raised (ValueError MustMatchBothOrNeither),
         \<lparr>allatom_file = Some allatom_sample, protein_file = Some protein_offstep\<rparr>,
         [Open ''full.h5'' ''r'', Print (AllAtomHasFrames ''full.h5'' 3),
          Open ''protein.h5'' ''a'', Print (FoundCounts 2 1 3 3 ''full.h5'' ''protein.h5'')])"
proof -
  let ?w = "\<lparr>allatom_file = Some allatom_sample, protein_file = Some protein_offstep\<rparr>"
  have h1: "allatom_file ?w = Some allatom_sample" by simp
  have h3: "(1 :: int) \<le> int (length [full_row 0, full_row 1, full_row 2])" by simp
  have h5: "earrays (open_append (protein_file ?w)) ''processed_filenames'' \<noteq> None
            \<or> topology allatom_sample \<noteq> None"
    by (simp add: open_append_def protein_offstep_def)
  have nf: "length (disk_frames (Some protein_offstep)) = 3"
    by (simp add: disk_frames_def stored_frames_def protein_offstep_def)
  have nl: "length (disk_ledger ''processed_filenames'' (Some protein_offstep)) = 1"
    by (simp add: disk_ledger_def ledger_def protein_offstep_def)
  have h6: "\<not> (length (disk_frames (protein_file ?w)) < length [full_row 0, full_row 1, full_row 2]
            \<and> length (disk_ledger ''processed_filenames'' (protein_file ?w))
               < length [''/d/results-0.tar.bz2'', ''/d/results-1.tar.bz2''])"
    by (simp add: nf)
  have run: "strip_water keep_topology ''full.h5'' ''protein.h5'' [0, 2, -1] 1 ?w
      = (Raised (ValueError MustMatchBothOrNeither), ?w,
         [Open ''full.h5'' ''r'', Print (AllAtomHasFrames ''full.h5'' 3),
          Open ''protein.h5'' ''a'', Print (FoundCounts 2 1 3 3 ''full.h5'' ''protein.h5'')])"
    by (simp add: strip_water_def frames_sample find_key_sample init_protein_def open_append_def
      derive_def Let_def h5_len_def ledger_def protein_offstep_def)
  from strip_water_lockstep_checks [OF h1 frames_sample h3 find_key_sample h5 h6,
      of keep_topology "''full.h5''" "''protein.h5''" "[0, 2, -1]"]
  have "outcome_of (strip_water keep_topology ''full.h5'' ''protein.h5'' [0, 2, -1] 1 ?w)
        = Raised (ValueError MustMatchBothOrNeither)"
    by (simp add: nf nl)
  with run frames_sample h3 find_key_sample h5 nf nl show ?thesis
    by (simp add: open_append_def protein_offstep_def)
qed


text \<open>
  C7. The frames \<^verbatim>\<open>strip_water\<close> writes go to the protein file and are appended to its
  frames; there is one for each all-atom frame from the protein frame count on. Each
  carries the time, the cell lengths and the cell angles of its all-atom frame, none of
  the other five fields, and as many coordinates as there are atom indices: the
  coordinate at position \<open>j\<close> is that of the atom that index \<open>j\<close> of the list selects.
\<close>

theorem strip_water_projects_frames:
  assumes "Write f rows \<in> set (trace_of (strip_water S an pn idx m w))"
    and "allatom_file w = Some a" and "frames a = Some fa"
  shows "f = pn
       \<and> disk_frames (protein_file (file_of (strip_water S an pn idx m w)))
          = disk_frames (protein_file w) @ rows
       \<and> length rows = length fa - length (disk_frames (protein_file w))
       \<and> (\<forall>k<length rows.
            time (rows ! k) = time (fa ! (length (disk_frames (protein_file w)) + k))
            \<and> cell_lengths (rows ! k)
               = cell_lengths (fa ! (length (disk_frames (protein_file w)) + k))
            \<and> cell_angles (rows ! k)
               = cell_angles (fa ! (length (disk_frames (protein_file w)) + k))
            \<and> velocities (rows ! k) = None \<and> kineticEnergy (rows ! k) = None
            \<and> potentialEnergy (rows ! k) = None \<and> temperature (rows ! k) = None
            \<and> alchemicalLambda (rows ! k) = None
            \<and> length (coordinates (rows ! k)) = length idx
            \<and> (\<forall>j<length idx.
                 \<exists>i. py_index
                        (length (coordinates (fa ! (length (disk_frames (protein_file w)) + k))))
                        (idx ! j) = Some i
                     \<and> coordinates (rows ! k) ! j
                        = coordinates (fa ! (length (disk_frames (protein_file w)) + k)) ! i))"
proof -
  let ?n = "length (disk_frames (protein_file w))"
  from assms(1) have wr: "list_ex is_write (trace_of (strip_water S an pn idx m w))"
    by (auto simp: list_ex_iff intro: bexI [of _ "Write f rows"])
  from strip_water_derived [OF wr] assms(2) assms(3)
  obtain key la p1 evs2 coords where
    f1: "stored_frames p1 = disk_frames (protein_file w)"
    and e2: "\<not> list_ex is_write evs2"
    and lt: "?n < length fa"
    and g: "gather_rows (drop ?n fa) idx = Inr coords"
    and r: "strip_water S an pn idx m w
             = (Returned,
                w\<lparr>protein_file := Some
                     (h5_append key (drop (length (disk_ledger key (protein_file w))) la)
                        (h5_write (map2 protein_row (drop ?n fa) coords) p1))\<rparr>,
                [Open an ''r'', Print (AllAtomHasFrames an (length fa))] @ Open pn ''a'' # evs2
                @ [Print (FoundCounts (length la) (length (disk_ledger key (protein_file w)))
                            (length fa) ?n an pn),
                   Write pn (map2 protein_row (drop ?n fa) coords),
                   Append pn key (drop (length (disk_ledger key (protein_file w))) la)])"
    by fastforce
  from e2 have "Write f rows \<notin> set evs2"
    by (auto simp: list_ex_iff)
  with assms(1) have fr: "f = pn" "rows = map2 protein_row (drop ?n fa) coords"
    by (auto simp: r)
  from gather_rows_Inr [OF g]
  have lc: "length coords = length fa - ?n"
    and gk: "\<forall>k<length fa - ?n. gather (coordinates (drop ?n fa ! k)) idx = Inr (coords ! k)"
    by simp_all
  have lr: "length rows = length fa - ?n"
    using fr(2) lc by simp
  have per: "\<forall>k<length rows.
            time (rows ! k) = time (fa ! (?n + k))
            \<and> cell_lengths (rows ! k) = cell_lengths (fa ! (?n + k))
            \<and> cell_angles (rows ! k) = cell_angles (fa ! (?n + k))
            \<and> velocities (rows ! k) = None \<and> kineticEnergy (rows ! k) = None
            \<and> potentialEnergy (rows ! k) = None \<and> temperature (rows ! k) = None
            \<and> alchemicalLambda (rows ! k) = None
            \<and> length (coordinates (rows ! k)) = length idx
            \<and> (\<forall>j<length idx.
                 \<exists>i. py_index (length (coordinates (fa ! (?n + k)))) (idx ! j) = Some i
                     \<and> coordinates (rows ! k) ! j = coordinates (fa ! (?n + k)) ! i)"
  proof (intro allI impI)
    fix k assume k: "k < length rows"
    with lr have k': "k < length fa - ?n" by simp
    then have src: "drop ?n fa ! k = fa ! (?n + k)" by simp
    from k' lc have rk: "rows ! k = protein_row (fa ! (?n + k)) (coords ! k)"
      using fr(2) src by simp
    from gk k' src have "gather (coordinates (fa ! (?n + k))) idx = Inr (coords ! k)"
      by simp
    from gather_Inr [OF this] show "time (rows ! k) = time (fa ! (?n + k))
            \<and> cell_lengths (rows ! k) = cell_lengths (fa ! (?n + k))
            \<and> cell_angles (rows ! k) = cell_angles (fa ! (?n + k))
            \<and> velocities (rows ! k) = None \<and> kineticEnergy (rows ! k) = None
            \<and> potentialEnergy (rows ! k) = None \<and> temperature (rows ! k) = None
            \<and> alchemicalLambda (rows ! k) = None
            \<and> length (coordinates (rows ! k)) = length idx
            \<and> (\<forall>j<length idx.
                 \<exists>i. py_index (length (coordinates (fa ! (?n + k)))) (idx ! j) = Some i
                     \<and> coordinates (rows ! k) ! j = coordinates (fa ! (?n + k)) ! i)"
      by (simp add: rk protein_row_def)
  qed
  have fs: "disk_frames (protein_file (file_of (strip_water S an pn idx m w)))
          = disk_frames (protein_file w) @ rows"
    by (simp add: r disk_frames_Some stored_frames_h5_append stored_frames_h5_write
        f1 fr(2))
  from fr(1) fs lr per show ?thesis by blast
qed


text \<open>The theorem at the indices 0, 2 and -1 of four atoms.\<close>

theorem strip_water_projects_frames_witness:
  "Write ''protein.h5'' [protein_row (full_row 1) [1, 201, 301],
                         protein_row (full_row 2) [2, 202, 302]]
     \<in> set (trace_of (strip_water keep_topology ''full.h5'' ''protein.h5'' [0, 2, -1] 1
           \<lparr>allatom_file = Some allatom_sample, protein_file = Some protein_behind\<rparr>))
   \<and> frames allatom_sample = Some [full_row 0, full_row 1, full_row 2]
   \<and> disk_frames (protein_file (file_of
         (strip_water keep_topology ''full.h5'' ''protein.h5'' [0, 2, -1] 1
            \<lparr>allatom_file = Some allatom_sample, protein_file = Some protein_behind\<rparr>)))
      = [protein_row (full_row 0) [0, 200, 300], protein_row (full_row 1) [1, 201, 301],
         protein_row (full_row 2) [2, 202, 302]]
   \<and> velocities (full_row 1) = Some [1, 1, 1, 1]
   \<and> velocities (protein_row (full_row 1) [1, 201, 301]) = None
   \<and> length (coordinates (protein_row (full_row 1) [1, 201, 301])) = length [0, 2, -1 :: int]"
proof -
  let ?w = "\<lparr>allatom_file = Some allatom_sample, protein_file = Some protein_behind\<rparr>"
  let ?R = "strip_water keep_topology ''full.h5'' ''protein.h5'' [0, 2, -1] 1 ?w"
  let ?rows = "[protein_row (full_row 1) [1, 201, 301], protein_row (full_row 2) [2, 202, 302]]"
  have h1: "Write ''protein.h5'' ?rows \<in> set (trace_of ?R)" by (simp add: strip_behind_run)
  have h2: "allatom_file ?w = Some allatom_sample" by simp
  have pf: "disk_frames (Some protein_behind) = [protein_row (full_row 0) [0, 200, 300]]"
    by (simp add: disk_frames_def stored_frames_def protein_behind_def)
  from strip_water_projects_frames [OF h1 h2 frames_sample]
  have "disk_frames (protein_file (file_of ?R)) = disk_frames (protein_file ?w) @ ?rows
        \<and> velocities (?rows ! 0) = None \<and> length (coordinates (?rows ! 0)) = length [0, 2, -1 :: int]"
    by auto
  then show ?thesis
    using h1 frames_sample by (simp add: pf) (simp add: full_row_def)
qed


text \<open>
  The two guards of \<^verbatim>\<open>strip_water\<close> return without touching the protein file when the
  all-atom path does not exist and when \<^verbatim>\<open>len\<close> of the all-atom file is below
  \<^verbatim>\<open>min_num_frames\<close>.
\<close>

lemma strip_water_guards:
  "(allatom_file w = None \<longrightarrow>
      strip_water topology_subset allatom_filename protein_filename indices min_num_frames w
      = (Returned, w, [Print (SkippingNotFound allatom_filename)]))
   \<and> (allatom_file w = Some trj_allatom \<and> frames trj_allatom = Some frames_allatom
        \<and> int (length frames_allatom) < min_num_frames \<longrightarrow>
      strip_water topology_subset allatom_filename protein_filename indices min_num_frames w
      = (Returned, w,
         [Open allatom_filename ''r'',
          Print (AllAtomHasFrames allatom_filename (length frames_allatom)),
          Print (MustHaveAtLeast min_num_frames allatom_filename)]))"
  by (simp add: strip_water_def)


text \<open>
  C8. The second guard does not return for an all-atom file without frames. The file a
  merge leaves when the load of its first unit fails exists, has a ledger and a
  topology, and has no coordinates node: \<^verbatim>\<open>len\<close> raises \<^verbatim>\<open>NoSuchNodeError\<close> at line 94
  and \<^verbatim>\<open>strip_water\<close> with the default \<^verbatim>\<open>min_num_frames\<close> of 1 raises it to the caller.
  Lines 116--119 catch the same exception for the protein file and count no frames.
\<close>

theorem strip_water_frameless_raises:
  "file_of (concatenate_core17 glob_two load_none ''/d'' () ''full.h5'' None)
     = Some allatom_frameless
   \<and> strip_water keep_topology ''full.h5'' ''protein.h5'' [0, 2, -1] 1
        \<lparr>allatom_file = Some allatom_frameless, protein_file = None\<rparr>
      = (Raised NoSuchNodeError,
         \<lparr>allatom_file = Some allatom_frameless, protein_file = None\<rparr>,
         [Open ''full.h5'' ''r''])"
  by (simp add: frameless_left_by_merge strip_water_def allatom_frameless_def)


end
